theory Spec2Isabelle
  imports Main "HOL-Library.Char_ord" "HOL-Library.List_Lexorder"
begin

section \<open>Data model (internal/models/ir.go)\<close>

text \<open>
  Go strings are byte sequences and are compared bytewise, which is the lexicographic
  order on \<open>char list\<close>. A Go map is an association list read with \<open>map_of\<close>; a missing
  key reads as the zero value of the value type, as in Go. A nil slice and an empty
  slice are both \<open>[]\<close> except where \<open>reflect.DeepEqual\<close> tells them apart (the \<open>Test\<close>
  field of a healthcheck), and a nil pointer is \<open>None\<close>.
\<close>

type_synonym 'v gomap = "(string \<times> 'v) list"

record BuildIR =
  Context :: string
  Dockerfile :: string
  Args :: "string gomap"
  Target :: string

record PortIR =
  HostIP :: string
  HostPort :: string
  ContainerPort :: string
  Protocol :: string

record MountIR =
  Type :: string
  Source :: string
  MountTarget :: string
  ReadOnly :: bool

record HealthcheckIR =
  Test :: "string list option"
  Interval :: string
  Timeout :: string
  Retries :: int
  StartPeriod :: string
  Disable :: bool

record ServiceIR =
  Image :: "string option"
  Build :: "BuildIR option"
  Env :: "string option gomap"
  EnvFiles :: "string list"
  Ports :: "PortIR list"
  Volumes :: "MountIR list"
  Networks :: "string list"
  DependsOn :: "string list"
  Healthcheck :: "HealthcheckIR option"
  Command :: "string list"
  Entrypoint :: "string list"
  Profiles :: "string list"
  Restart :: "string option"
  Labels :: "string gomap"

record VolumeIR =
  VolDriver :: string
  VolDriverOpts :: "string gomap"
  VolExternal :: bool
  VolName :: string
  VolLabels :: "string gomap"

record NetworkIR =
  NetDriver :: string
  NetDriverOpts :: "string gomap"
  NetExternal :: bool
  NetName :: string
  NetLabels :: "string gomap"

record ComposeIR =
  IRServices :: "ServiceIR gomap"
  IRVolumes :: "VolumeIR gomap"
  IRNetworks :: "NetworkIR gomap"

definition zeroServiceIR :: ServiceIR where
  "zeroServiceIR = \<lparr>Image = None, Build = None, Env = [], EnvFiles = [], Ports = [],
     Volumes = [], Networks = [], DependsOn = [], Healthcheck = None, Command = [],
     Entrypoint = [], Profiles = [], Restart = None, Labels = []\<rparr>"

definition zeroVolumeIR :: VolumeIR where
  "zeroVolumeIR = \<lparr>VolDriver = [], VolDriverOpts = [], VolExternal = False, VolName = [],
     VolLabels = []\<rparr>"

definition zeroNetworkIR :: NetworkIR where
  "zeroNetworkIR = \<lparr>NetDriver = [], NetDriverOpts = [], NetExternal = False, NetName = [],
     NetLabels = []\<rparr>"

definition zeroPortIR :: PortIR where
  "zeroPortIR = \<lparr>HostIP = [], HostPort = [], ContainerPort = [], Protocol = []\<rparr>"

definition zeroMountIR :: MountIR where
  "zeroMountIR = \<lparr>Type = [], Source = [], MountTarget = [], ReadOnly = False\<rparr>"

text \<open>\<open>m[k]\<close> with the zero value \<open>z\<close> of the value type for a missing key.\<close>

definition index :: "'v \<Rightarrow> 'v gomap \<Rightarrow> string \<Rightarrow> 'v" where
  "index z m k = (case map_of m k of None \<Rightarrow> z | Some v \<Rightarrow> v)"

datatype ChangeKind = ChangeAdded | ChangeRemoved | ChangeModified

datatype Scope = ScopeService | ScopeVolume | ScopeNetwork

text \<open>\<open>Severity\<close> is a string type in the source and a rule may put any string in it.\<close>

type_synonym Severity = string

abbreviation SeverityInfo :: Severity where "SeverityInfo \<equiv> ''info''"
abbreviation SeverityWarning :: Severity where "SeverityWarning \<equiv> ''warning''"
abbreviation SeverityBreaking :: Severity where "SeverityBreaking \<equiv> ''breaking''"

text \<open>
  The values an \<open>interface{}\<close> field of a Change holds. \<open>VNil\<close> is the nil interface;
  a nil pointer stored in an interface (\<open>VHealthcheck None\<close>) is a different value,
  and \<open>== nil\<close> is false for it.
\<close>

datatype any =
    VNil
  | VString string
  | VService ServiceIR
  | VVolume VolumeIR
  | VNetwork NetworkIR
  | VPort PortIR
  | VMount MountIR
  | VHealthcheck "HealthcheckIR option"
  | VStrings "string list"

record Change =
  Kind :: ChangeKind
  Scope :: Scope
  Name :: string
  Path :: string
  Before :: any
  After :: any
  Severity :: Severity

record DiffSummary =
  ServicesAdded :: nat
  ServicesRemoved :: nat
  ServicesChanged :: nat
  VolumesAdded :: nat
  VolumesRemoved :: nat
  NetworksAdded :: nat
  NetworksRemoved :: nat
  TotalChanges :: nat
  BreakingCount :: nat
  WarningCount :: nat
  InfoCount :: nat

record DiffReport =
  Summary :: DiffSummary
  Changes :: "Change list"

definition NewDiffReport :: DiffReport where
  "NewDiffReport = \<lparr>Summary = \<lparr>ServicesAdded = 0, ServicesRemoved = 0, ServicesChanged = 0,
     VolumesAdded = 0, VolumesRemoved = 0, NetworksAdded = 0, NetworksRemoved = 0,
     TotalChanges = 0, BreakingCount = 0, WarningCount = 0, InfoCount = 0\<rparr>, Changes = []\<rparr>"

definition AddChange :: "DiffReport \<Rightarrow> Change \<Rightarrow> DiffReport" where
  "AddChange r c =
     (let s = (Summary r)\<lparr>TotalChanges := TotalChanges (Summary r) + 1\<rparr>;
          s' = (if Severity c = SeverityBreaking then s\<lparr>BreakingCount := BreakingCount s + 1\<rparr>
                else if Severity c = SeverityWarning then s\<lparr>WarningCount := WarningCount s + 1\<rparr>
                else if Severity c = SeverityInfo then s\<lparr>InfoCount := InfoCount s + 1\<rparr>
                else s)
      in \<lparr>Summary = s', Changes = Changes r @ [c]\<rparr>)"



section \<open>Sorting (package sort of the Go library)\<close>

text \<open>
  \<open>sort.Strings\<close> and \<open>sort.Slice\<close> are given by the insertion sort the library runs on
  a slice of at most twelve elements: each element in turn is swapped leftwards while it
  is less than its left neighbour. \<open>insertLeft\<close> works on the reversed sorted prefix.
  On a longer slice the library's pattern-defeating quicksort (Go 1.19 and later) may
  order elements that compare equal differently; it returns a slice that is already in
  order unchanged, as this sort does.
\<close>

fun insertLeft :: "('a \<Rightarrow> 'a \<Rightarrow> bool) \<Rightarrow> 'a \<Rightarrow> 'a list \<Rightarrow> 'a list" where
  "insertLeft lt x [] = [x]"
| "insertLeft lt x (y # ys) = (if lt x y then y # insertLeft lt x ys else x # y # ys)"

definition insertionSort :: "('a \<Rightarrow> 'a \<Rightarrow> bool) \<Rightarrow> 'a list \<Rightarrow> 'a list" where
  "insertionSort lt xs = rev (foldl (\<lambda>acc x. insertLeft lt x acc) [] xs)"

definition sortStrings :: "string list \<Rightarrow> string list" where
  "sortStrings xs = insertionSort (\<lambda>a b. a < b) xs"

section \<open>Structural differ (internal/diff)\<close>

text \<open>The keys of a map, each once.\<close>

definition mapKeys :: "'v gomap \<Rightarrow> string list" where
  "mapKeys m = remdups (map fst m)"

definition envKeys :: "string option gomap \<Rightarrow> string list" where
  "envKeys m = sortStrings (mapKeys m)"

text \<open>
  \<open>diffSets\<close> ranges over the two key sets (each string once) and sorts the three
  results, so the order in which Go walks a map does not show in them.
\<close>

definition diffSets :: "string list \<Rightarrow> string list \<Rightarrow> string list \<times> string list \<times> string list" where
  "diffSets old new =
     (sortStrings (remdups (filter (\<lambda>s. s \<notin> set old) new)),
      sortStrings (remdups (filter (\<lambda>s. s \<notin> set new) old)),
      sortStrings (remdups (filter (\<lambda>s. s \<in> set new) old)))"

definition ptrEqual :: "string option \<Rightarrow> string option \<Rightarrow> bool" where
  "ptrEqual a b =
     (if a = None \<and> b = None then True
      else if a = None \<or> b = None then False
      else the a = the b)"

definition ptrValue :: "string option \<Rightarrow> any" where
  "ptrValue p = (case p of None \<Rightarrow> VNil | Some s \<Rightarrow> VString s)"

definition sliceEqual :: "string list \<Rightarrow> string list \<Rightarrow> bool" where
  "sliceEqual a b =
     (if length a \<noteq> length b then False else list_all2 (\<lambda>x y. x = y) a b)"

definition healthcheckEqual :: "HealthcheckIR option \<Rightarrow> HealthcheckIR option \<Rightarrow> bool" where
  "healthcheckEqual a b =
     (if a = None \<and> b = None then True
      else if a = None \<or> b = None then False
      else a = b)"

text \<open>
  \<open>changeKindForPtrs\<close> takes interface values and tests them against the nil interface.
\<close>

definition changeKindForPtrs :: "any \<Rightarrow> any \<Rightarrow> ChangeKind" where
  "changeKindForPtrs old new =
     (if old = VNil then ChangeAdded else if new = VNil then ChangeRemoved else ChangeModified)"

text \<open>The key that \<open>portMap\<close> formats for a port: \<open>hostPort:containerPort/protocol\<close>.\<close>

definition portKey :: "PortIR \<Rightarrow> string" where
  "portKey p = HostPort p @ '':'' @ ContainerPort p @ ''/'' @ Protocol p"

text \<open>Assignment \<open>m[k] = v\<close>: an existing key keeps its place, a new key is appended.\<close>

fun assign :: "'v gomap \<Rightarrow> string \<Rightarrow> 'v \<Rightarrow> 'v gomap" where
  "assign [] k v = [(k, v)]"
| "assign ((k', v') # m) k v = (if k' = k then (k, v) # m else (k', v') # assign m k v)"

definition portMap :: "PortIR list \<Rightarrow> PortIR gomap" where
  "portMap ports = foldl (\<lambda>m p. assign m (portKey p) p) [] ports"

definition mountMap :: "MountIR list \<Rightarrow> MountIR gomap" where
  "mountMap mounts = foldl (\<lambda>m mount. assign m (MountTarget mount) mount) [] mounts"

section \<open>Severity heuristics (internal/diff/severity.go)\<close>

text \<open>The functions of package strings that the source calls.\<close>

definition HasPrefix :: "string \<Rightarrow> string \<Rightarrow> bool" where
  "HasPrefix s p = (take (length p) s = p)"

definition HasSuffix :: "string \<Rightarrow> string \<Rightarrow> bool" where
  "HasSuffix s suf = (length suf \<le> length s \<and> drop (length s - length suf) s = suf)"

definition TrimPrefix :: "string \<Rightarrow> string \<Rightarrow> string" where
  "TrimPrefix s p = (if HasPrefix s p then drop (length p) s else s)"


fun Contains :: "string \<Rightarrow> string \<Rightarrow> bool" where
  "Contains [] sub = (sub = [])"
| "Contains (c # cs) sub = (HasPrefix (c # cs) sub \<or> Contains cs sub)"

text \<open>\<open>strings.Split\<close> and \<open>strings.LastIndex\<close> with a separator of one byte.\<close>

fun Split :: "string \<Rightarrow> char \<Rightarrow> string list" where
  "Split [] sep = [[]]"
| "Split (c # cs) sep =
     (if c = sep then [] # Split cs sep
      else (case Split cs sep of [] \<Rightarrow> [[c]] | p # ps \<Rightarrow> (c # p) # ps))"

definition LastIndex :: "string \<Rightarrow> char \<Rightarrow> int" where
  "LastIndex s c =
     (if c \<in> set s then int (length s) - 1 - int (length (takeWhile (\<lambda>x. x \<noteq> c) (rev s)))
      else - 1)"

definition extractTag :: "string \<Rightarrow> string" where
  "extractTag img =
     (if Contains img ''@'' then []
      else if length (Split img CHR '':'') < 2 then ''latest''
      else let lastColon = LastIndex img CHR '':'' in
        if lastColon = - 1 then ''latest''
        else let tag = drop (nat (lastColon + 1)) img in
          if Contains tag ''/'' then ''latest'' else tag)"

definition isDigit :: "char \<Rightarrow> bool" where
  "isDigit c = (CHR ''0'' \<le> c \<and> c \<le> CHR ''9'')"

text \<open>
  The regular expression \<open>^(\d+)\<close> matches the longest run of ASCII digits at the start
  of the tag, and fails when the run is empty.
\<close>

definition extractMajorVersion :: "string \<Rightarrow> string" where
  "extractMajorVersion tag =
     (if tag = [] \<or> tag = ''latest'' then []
      else let tag' = TrimPrefix tag ''v''; m = takeWhile isDigit tag' in
        if m \<noteq> [] then m else [])"

definition imageSeverity :: "string option \<Rightarrow> string option \<Rightarrow> Severity" where
  "imageSeverity old new =
     (case (old, new) of
        (Some old', Some new') \<Rightarrow>
          let oldTag = extractTag old'; newTag = extractTag new' in
          if oldTag = newTag then SeverityInfo
          else let oldMajor = extractMajorVersion oldTag; newMajor = extractMajorVersion newTag in
            if oldMajor \<noteq> [] \<and> newMajor \<noteq> [] \<and> oldMajor \<noteq> newMajor then SeverityWarning
            else SeverityInfo
      | _ \<Rightarrow> SeverityInfo)"

text \<open>
  \<open>strconv.Atoi\<close> where \<open>int\<close> has 64 bits: an optional sign and decimal digits; a value
  out of range comes back as the nearest bound (with an error the caller drops), and a
  string that is no number as 0.
\<close>

definition digitsValue :: "string \<Rightarrow> int" where
  "digitsValue ds = foldl (\<lambda>n c. 10 * n + (int (of_char c) - 48)) 0 ds"

definition validDigits :: "string \<Rightarrow> bool" where
  "validDigits ds = (ds \<noteq> [] \<and> list_all isDigit ds)"

definition Atoi :: "string \<Rightarrow> int" where
  "Atoi s =
     (let neg = (s \<noteq> [] \<and> hd s = CHR ''-'');
          ds = (if s \<noteq> [] \<and> (hd s = CHR ''-'' \<or> hd s = CHR ''+'') then tl s else s)
      in if \<not> validDigits ds then 0
         else if neg then max (- (2 ^ 63)) (- digitsValue ds)
         else min (2 ^ 63 - 1) (digitsValue ds))"

definition IsBreakingChange :: "Change \<Rightarrow> bool" where
  "IsBreakingChange c =
     (if Kind c = ChangeRemoved \<and>
         (Contains (Path c) ''.environment.'' \<or> Contains (Path c) ''.ports.'' \<or>
          Contains (Path c) ''.volumes.'' \<or> Contains (Path c) ''.depends_on.'' \<or>
          Contains (Path c) ''.healthcheck'' \<or> Scope c = ScopeService \<or>
          Scope c = ScopeVolume)
      then True
      else if HasSuffix (Path c) ''.image'' \<and> Kind c = ChangeModified then
        (case (Before c, After c) of
           (VString before, VString after) \<Rightarrow>
             let oldMajor = extractMajorVersion (extractTag before);
                 newMajor = extractMajorVersion (extractTag after) in
             if oldMajor \<noteq> [] \<and> newMajor \<noteq> [] then Atoi newMajor < Atoi oldMajor
             else False
         | _ \<Rightarrow> False)
      else False)"

section \<open>Comparing two configurations (internal/diff)\<close>

definition compareEnv :: "string \<Rightarrow> string \<Rightarrow> string option gomap \<Rightarrow> string option gomap \<Rightarrow> Change list" where
  "compareEnv svcName basePath old new =
     (case diffSets (envKeys old) (envKeys new) of (added, removed, common) \<Rightarrow>
        map (\<lambda>key. \<lparr>Kind = ChangeAdded, Scope = ScopeService, Name = svcName,
                    Path = basePath @ ''.environment.'' @ key,
                    Before = VNil, After = ptrValue (index None new key),
                    Severity = SeverityInfo\<rparr>) added
        @ map (\<lambda>key. \<lparr>Kind = ChangeRemoved, Scope = ScopeService, Name = svcName,
                    Path = basePath @ ''.environment.'' @ key,
                    Before = ptrValue (index None old key), After = VNil,
                    Severity = SeverityBreaking\<rparr>) removed
        @ concat (map (\<lambda>key.
             let oldVal = ptrValue (index None old key); newVal = ptrValue (index None new key) in
             if oldVal \<noteq> newVal then
               [\<lparr>Kind = ChangeModified, Scope = ScopeService, Name = svcName,
                 Path = basePath @ ''.environment.'' @ key,
                 Before = oldVal, After = newVal, Severity = SeverityWarning\<rparr>]
             else []) common))"

definition comparePorts :: "string \<Rightarrow> string \<Rightarrow> PortIR list \<Rightarrow> PortIR list \<Rightarrow> Change list" where
  "comparePorts svcName basePath old new =
     (let oldMap = portMap old; newMap = portMap new in
      case diffSets (mapKeys oldMap) (mapKeys newMap) of (added, removed, common) \<Rightarrow>
        map (\<lambda>key. \<lparr>Kind = ChangeAdded, Scope = ScopeService, Name = svcName,
                    Path = basePath @ ''.ports.'' @ key,
                    Before = VNil, After = VPort (index zeroPortIR newMap key),
                    Severity = SeverityInfo\<rparr>) added
        @ map (\<lambda>key. \<lparr>Kind = ChangeRemoved, Scope = ScopeService, Name = svcName,
                    Path = basePath @ ''.ports.'' @ key,
                    Before = VPort (index zeroPortIR oldMap key), After = VNil,
                    Severity = SeverityBreaking\<rparr>) removed
        @ concat (map (\<lambda>key.
             let oldPort = index zeroPortIR oldMap key; newPort = index zeroPortIR newMap key in
             if oldPort \<noteq> newPort then
               [\<lparr>Kind = ChangeModified, Scope = ScopeService, Name = svcName,
                 Path = basePath @ ''.ports.'' @ key,
                 Before = VPort oldPort, After = VPort newPort, Severity = SeverityWarning\<rparr>]
             else []) common))"

definition compareServiceVolumes :: "string \<Rightarrow> string \<Rightarrow> MountIR list \<Rightarrow> MountIR list \<Rightarrow> Change list" where
  "compareServiceVolumes svcName basePath old new =
     (let oldMap = mountMap old; newMap = mountMap new in
      case diffSets (mapKeys oldMap) (mapKeys newMap) of (added, removed, common) \<Rightarrow>
        map (\<lambda>key. \<lparr>Kind = ChangeAdded, Scope = ScopeService, Name = svcName,
                    Path = basePath @ ''.volumes.'' @ key,
                    Before = VNil, After = VMount (index zeroMountIR newMap key),
                    Severity = SeverityInfo\<rparr>) added
        @ map (\<lambda>key. \<lparr>Kind = ChangeRemoved, Scope = ScopeService, Name = svcName,
                    Path = basePath @ ''.volumes.'' @ key,
                    Before = VMount (index zeroMountIR oldMap key), After = VNil,
                    Severity = SeverityBreaking\<rparr>) removed
        @ concat (map (\<lambda>key.
             let oldMount = index zeroMountIR oldMap key; newMount = index zeroMountIR newMap key in
             if oldMount \<noteq> newMount then
               [\<lparr>Kind = ChangeModified, Scope = ScopeService, Name = svcName,
                 Path = basePath @ ''.volumes.'' @ key,
                 Before = VMount oldMount, After = VMount newMount, Severity = SeverityWarning\<rparr>]
             else []) common))"

definition compareStringSlice :: "string \<Rightarrow> string \<Rightarrow> string list \<Rightarrow> string list \<Rightarrow> Severity \<Rightarrow> Change list" where
  "compareStringSlice svcName path old new severity =
     (case diffSets old new of (added, removed, common) \<Rightarrow>
        map (\<lambda>item. \<lparr>Kind = ChangeAdded, Scope = ScopeService, Name = svcName,
                     Path = path @ ''.'' @ item,
                     Before = VNil, After = VString item, Severity = SeverityInfo\<rparr>) added
        @ map (\<lambda>item. \<lparr>Kind = ChangeRemoved, Scope = ScopeService, Name = svcName,
                     Path = path @ ''.'' @ item,
                     Before = VString item, After = VNil, Severity = severity\<rparr>) removed)"

definition compareService :: "string \<Rightarrow> ServiceIR \<Rightarrow> ServiceIR \<Rightarrow> Change list" where
  "compareService name old new =
     (let basePath = ''services.'' @ name in
      (if \<not> ptrEqual (Image old) (Image new) then
         [\<lparr>Kind = ChangeModified, Scope = ScopeService, Name = name,
           Path = basePath @ ''.image'',
           Before = ptrValue (Image old), After = ptrValue (Image new),
           Severity = imageSeverity (Image old) (Image new)\<rparr>]
       else [])
      @ compareEnv name basePath (Env old) (Env new)
      @ comparePorts name basePath (Ports old) (Ports new)
      @ compareServiceVolumes name basePath (Volumes old) (Volumes new)
      @ compareStringSlice name (basePath @ ''.networks'') (Networks old) (Networks new) SeverityInfo
      @ compareStringSlice name (basePath @ ''.depends_on'') (DependsOn old) (DependsOn new)
          SeverityWarning
      @ (if \<not> healthcheckEqual (Healthcheck old) (Healthcheck new) then
           [\<lparr>Kind = changeKindForPtrs (VHealthcheck (Healthcheck old))
                     (VHealthcheck (Healthcheck new)),
             Scope = ScopeService, Name = name,
             Path = basePath @ ''.healthcheck'',
             Before = VHealthcheck (Healthcheck old), After = VHealthcheck (Healthcheck new),
             Severity = (if Healthcheck old \<noteq> None \<and> Healthcheck new = None
                         then SeverityBreaking else SeverityInfo)\<rparr>]
         else [])
      @ (if \<not> sliceEqual (Command old) (Command new) then
           [\<lparr>Kind = ChangeModified, Scope = ScopeService, Name = name,
             Path = basePath @ ''.command'',
             Before = VStrings (Command old), After = VStrings (Command new),
             Severity = SeverityInfo\<rparr>]
         else [])
      @ (if \<not> sliceEqual (Entrypoint old) (Entrypoint new) then
           [\<lparr>Kind = ChangeModified, Scope = ScopeService, Name = name,
             Path = basePath @ ''.entrypoint'',
             Before = VStrings (Entrypoint old), After = VStrings (Entrypoint new),
             Severity = SeverityWarning\<rparr>]
         else [])
      @ (if \<not> ptrEqual (Restart old) (Restart new) then
           [\<lparr>Kind = ChangeModified, Scope = ScopeService, Name = name,
             Path = basePath @ ''.restart'',
             Before = ptrValue (Restart old), After = ptrValue (Restart new),
             Severity = SeverityInfo\<rparr>]
         else []))"

text \<open>The report is threaded through the three comparisons, as the pointer is in Go.\<close>

definition addChanges :: "DiffReport \<Rightarrow> Change list \<Rightarrow> DiffReport" where
  "addChanges r cs = foldl AddChange r cs"

definition compareServices :: "ServiceIR gomap \<Rightarrow> ServiceIR gomap \<Rightarrow> DiffReport \<Rightarrow> DiffReport" where
  "compareServices old new report =
     (case diffSets (mapKeys old) (mapKeys new) of (added, removed, common) \<Rightarrow>
        let r0 = report\<lparr>Summary := (Summary report)\<lparr>ServicesAdded := length added,
                   ServicesRemoved := length removed\<rparr>\<rparr>;
            r1 = addChanges r0 (map (\<lambda>name.
                   \<lparr>Kind = ChangeAdded, Scope = ScopeService, Name = name,
                    Path = ''services.'' @ name,
                    Before = VNil, After = VService (index zeroServiceIR new name),
                    Severity = SeverityInfo\<rparr>) added);
            r2 = addChanges r1 (map (\<lambda>name.
                   \<lparr>Kind = ChangeRemoved, Scope = ScopeService, Name = name,
                    Path = ''services.'' @ name,
                    Before = VService (index zeroServiceIR old name), After = VNil,
                    Severity = SeverityBreaking\<rparr>) removed);
            (r3, changedServices) = foldl (\<lambda>(r, n) name.
                   let changes = compareService name (index zeroServiceIR old name)
                                   (index zeroServiceIR new name) in
                   if length changes > 0 then (addChanges r changes, n + 1) else (r, n))
                 (r2, 0) common
        in r3\<lparr>Summary := (Summary r3)\<lparr>ServicesChanged := changedServices\<rparr>\<rparr>)"

definition compareVolumes :: "VolumeIR gomap \<Rightarrow> VolumeIR gomap \<Rightarrow> DiffReport \<Rightarrow> DiffReport" where
  "compareVolumes old new report =
     (case diffSets (mapKeys old) (mapKeys new) of (added, removed, common) \<Rightarrow>
        let r0 = report\<lparr>Summary := (Summary report)\<lparr>VolumesAdded := length added,
                   VolumesRemoved := length removed\<rparr>\<rparr>;
            r1 = addChanges r0 (map (\<lambda>name.
                   \<lparr>Kind = ChangeAdded, Scope = ScopeVolume, Name = name,
                    Path = ''volumes.'' @ name,
                    Before = VNil, After = VVolume (index zeroVolumeIR new name),
                    Severity = SeverityInfo\<rparr>) added)
        in addChanges r1 (map (\<lambda>name.
                   \<lparr>Kind = ChangeRemoved, Scope = ScopeVolume, Name = name,
                    Path = ''volumes.'' @ name,
                    Before = VVolume (index zeroVolumeIR old name), After = VNil,
                    Severity = SeverityBreaking\<rparr>) removed))"

definition compareNetworks :: "NetworkIR gomap \<Rightarrow> NetworkIR gomap \<Rightarrow> DiffReport \<Rightarrow> DiffReport" where
  "compareNetworks old new report =
     (case diffSets (mapKeys old) (mapKeys new) of (added, removed, common) \<Rightarrow>
        let r0 = report\<lparr>Summary := (Summary report)\<lparr>NetworksAdded := length added,
                   NetworksRemoved := length removed\<rparr>\<rparr>;
            r1 = addChanges r0 (map (\<lambda>name.
                   \<lparr>Kind = ChangeAdded, Scope = ScopeNetwork, Name = name,
                    Path = ''networks.'' @ name,
                    Before = VNil, After = VNetwork (index zeroNetworkIR new name),
                    Severity = SeverityInfo\<rparr>) added)
        in addChanges r1 (map (\<lambda>name.
                   \<lparr>Kind = ChangeRemoved, Scope = ScopeNetwork, Name = name,
                    Path = ''networks.'' @ name,
                    Before = VNetwork (index zeroNetworkIR old name), After = VNil,
                    Severity = SeverityWarning\<rparr>) removed))"

definition Compare :: "ComposeIR \<Rightarrow> ComposeIR \<Rightarrow> DiffReport" where
  "Compare old new =
     compareNetworks (IRNetworks old) (IRNetworks new)
       (compareVolumes (IRVolumes old) (IRVolumes new)
         (compareServices (IRServices old) (IRServices new) NewDiffReport))"



section \<open>Port strings (internal/parser)\<close>


section \<open>Normalizer (internal/parser/normalizer.go)\<close>

definition portLess :: "PortIR \<Rightarrow> PortIR \<Rightarrow> bool" where
  "portLess a b =
     (if ContainerPort a \<noteq> ContainerPort b then ContainerPort a < ContainerPort b
      else HostPort a < HostPort b)"

definition mountLess :: "MountIR \<Rightarrow> MountIR \<Rightarrow> bool" where
  "mountLess a b = (MountTarget a < MountTarget b)"

definition normalizePorts :: "PortIR list \<Rightarrow> PortIR list" where
  "normalizePorts ports = (if length ports = 0 then ports else insertionSort portLess ports)"

definition normalizeVolumes :: "MountIR list \<Rightarrow> MountIR list" where
  "normalizeVolumes volumes =
     (if length volumes = 0 then volumes else insertionSort mountLess volumes)"

definition sortedStrings :: "string list \<Rightarrow> string list" where
  "sortedStrings s = (if length s = 0 then s else sortStrings s)"

definition normalizeService :: "ServiceIR \<Rightarrow> ServiceIR" where
  "normalizeService svc =
     \<lparr>Image = Image svc, Build = Build svc, Env = Env svc,
      EnvFiles = sortedStrings (EnvFiles svc),
      Ports = normalizePorts (Ports svc),
      Volumes = normalizeVolumes (Volumes svc),
      Networks = sortedStrings (Networks svc),
      DependsOn = sortedStrings (DependsOn svc),
      Healthcheck = Healthcheck svc, Command = Command svc, Entrypoint = Entrypoint svc,
      Profiles = sortedStrings (Profiles svc),
      Restart = Restart svc, Labels = Labels svc\<rparr>"

text \<open>
  Each loop of \<open>Normalize\<close> ranges over the entries of a map and assigns into the
  fresh map of the result.
\<close>

definition Normalize :: "ComposeIR \<Rightarrow> ComposeIR" where
  "Normalize ir =
     \<lparr>IRServices = foldl (\<lambda>m (name, svc). assign m name (normalizeService svc)) [] (IRServices ir),
      IRVolumes = foldl (\<lambda>m (name, vol). assign m name vol) [] (IRVolumes ir),
      IRNetworks = foldl (\<lambda>m (name, net). assign m name net) [] (IRNetworks ir)\<rparr>"

text \<open>A slice is in order for \<open>lt\<close> when no element is less than its left neighbour.\<close>

definition inOrder :: "('a \<Rightarrow> 'a \<Rightarrow> bool) \<Rightarrow> 'a list \<Rightarrow> bool" where
  "inOrder lt xs = successively (\<lambda>a b. \<not> lt b a) xs"

section \<open>Rules (internal/rules)\<close>

record SeverityRule =
  srPattern :: string
  srSeverity :: string
  srIsRegex :: bool

record IgnoreRule =
  irPattern :: string
  irIsRegex :: bool
  irReason :: string

record ServiceIgnoreRules =
  Paths :: "string list"
  Fields :: "string list"

record RulesConfig =
  Version :: string
  SeverityOverrides :: "SeverityRule list"
  IgnorePatterns :: "IgnoreRule list"
  ServiceIgnores :: "ServiceIgnoreRules gomap"
  Categories :: "string list gomap"

text \<open>
  Package regexp of the Go library is a parameter of the rule engine: \<open>Compile\<close> gives
  an error or a compiled expression of type \<open>'rx\<close>, and \<open>MatchString\<close> says whether an
  expression matches somewhere in a string.
\<close>

record 'rx regexp =
  Compile :: "string \<Rightarrow> string + 'rx"
  MatchString :: "'rx \<Rightarrow> string \<Rightarrow> bool"

record 'rx compiledSeverity =
  csPattern :: "'rx option"
  csLiteral :: string
  csSeverity :: string
  csIsRegex :: bool

record 'rx compiledIgnore =
  ciPattern :: "'rx option"
  ciLiteral :: string
  ciIsRegex :: bool
  ciReason :: string

record 'rx Rules =
  config :: RulesConfig
  severityPatterns :: "'rx compiledSeverity list"
  ignorePatterns :: "'rx compiledIgnore list"

fun compileSeverities :: "'rx regexp \<Rightarrow> SeverityRule list \<Rightarrow> string + 'rx compiledSeverity list" where
  "compileSeverities lib [] = Inr []"
| "compileSeverities lib (sr # srs) =
     (if srIsRegex sr then
        (case Compile lib (srPattern sr) of
           Inl err \<Rightarrow> Inl err
         | Inr re \<Rightarrow>
             (case compileSeverities lib srs of
                Inl err \<Rightarrow> Inl err
              | Inr rest \<Rightarrow> Inr (\<lparr>csPattern = Some re, csLiteral = [],
                                  csSeverity = srSeverity sr, csIsRegex = srIsRegex sr\<rparr> # rest)))
      else
        (case compileSeverities lib srs of
           Inl err \<Rightarrow> Inl err
         | Inr rest \<Rightarrow> Inr (\<lparr>csPattern = None, csLiteral = srPattern sr,
                             csSeverity = srSeverity sr, csIsRegex = srIsRegex sr\<rparr> # rest)))"

fun compileIgnores :: "'rx regexp \<Rightarrow> IgnoreRule list \<Rightarrow> string + 'rx compiledIgnore list" where
  "compileIgnores lib [] = Inr []"
| "compileIgnores lib (ir # irs) =
     (if irIsRegex ir then
        (case Compile lib (irPattern ir) of
           Inl err \<Rightarrow> Inl err
         | Inr re \<Rightarrow>
             (case compileIgnores lib irs of
                Inl err \<Rightarrow> Inl err
              | Inr rest \<Rightarrow> Inr (\<lparr>ciPattern = Some re, ciLiteral = [],
                                  ciIsRegex = irIsRegex ir, ciReason = irReason ir\<rparr> # rest)))
      else
        (case compileIgnores lib irs of
           Inl err \<Rightarrow> Inl err
         | Inr rest \<Rightarrow> Inr (\<lparr>ciPattern = None, ciLiteral = irPattern ir,
                             ciIsRegex = irIsRegex ir, ciReason = irReason ir\<rparr> # rest)))"

definition compileRules :: "'rx regexp \<Rightarrow> RulesConfig \<Rightarrow> string + 'rx Rules" where
  "compileRules lib cfg =
     (case compileSeverities lib (SeverityOverrides cfg) of
        Inl err \<Rightarrow> Inl err
      | Inr sps \<Rightarrow>
          (case compileIgnores lib (IgnorePatterns cfg) of
             Inl err \<Rightarrow> Inl err
           | Inr ips \<Rightarrow> Inr \<lparr>config = cfg, severityPatterns = sps, ignorePatterns = ips\<rparr>))"

fun ReplaceAll :: "string \<Rightarrow> char \<Rightarrow> string \<Rightarrow> string" where
  "ReplaceAll [] old new = []"
| "ReplaceAll (c # cs) old new =
     (if c = old then new @ ReplaceAll cs old new else c # ReplaceAll cs old new)"

definition globPattern :: "string \<Rightarrow> string" where
  "globPattern pattern =
     ''^'' @ ReplaceAll (ReplaceAll pattern CHR ''.'' [CHR 0x5C, CHR ''.'']) CHR ''*'' ''.*'' @ ''$''"

definition matchGlob :: "'rx regexp \<Rightarrow> string \<Rightarrow> string \<Rightarrow> bool" where
  "matchGlob lib pattern str =
     (let pattern' = globPattern pattern in
      case Compile lib pattern' of
        Inl err \<Rightarrow> pattern' = str
      | Inr re \<Rightarrow> MatchString lib re str)"

text \<open>
  A method call on a nil \<open>*regexp.Regexp\<close> panics; the functions that match a compiled
  rule return \<open>None\<close> for the panic.
\<close>

fun GetSeverityOverride :: "'rx regexp \<Rightarrow> 'rx compiledSeverity list \<Rightarrow> string \<Rightarrow> (Severity \<times> bool) option" where
  "GetSeverityOverride lib [] path = Some ([], False)"
| "GetSeverityOverride lib (sp # sps) path =
     (if csIsRegex sp then
        (case csPattern sp of
           None \<Rightarrow> None
         | Some re \<Rightarrow>
             if MatchString lib re path then Some (csSeverity sp, True)
             else GetSeverityOverride lib sps path)
      else if matchGlob lib (csLiteral sp) path then Some (csSeverity sp, True)
      else GetSeverityOverride lib sps path)"



section \<open>Applying the rules (cmd)\<close>






section \<open>A model of package regexp on simple patterns\<close>

text \<open>
  The theorems about the rule engine hold for every regexp library. To run \<open>matchGlob\<close>
  on concrete patterns, \<open>goRegexp\<close> follows Go's regexp on ASCII patterns built from
  literal bytes, an escaped punctuation byte, \<open>.\<close> (any byte but a newline), the
  anchors \<open>^\<close> and \<open>$\<close> (start and end of the text) and the operators \<open>*\<close>, \<open>+\<close>,
  \<open>?\<close> after a byte or \<open>.\<close>, each with an optional \<open>?\<close> for the non-greedy form.
  As in Go, an operator with nothing before it and an operator right after another
  one are errors. Groups, classes, counted repetition, alternation, other escapes and
  bytes above 127 are outside the model, which answers them with an error of its own;
  it is applied below to patterns inside the fragment only.
\<close>

datatype atom = Lit char | AnyNotNL

datatype item = Begin | End | One atom | Star atom | Plus atom | Quest atom

definition isAlnum :: "char \<Rightarrow> bool" where
  "isAlnum c = (isDigit c \<or> (CHR ''A'' \<le> c \<and> c \<le> CHR ''Z'') \<or> (CHR ''a'' \<le> c \<and> c \<le> CHR ''z''))"

definition repeatItem :: "char \<Rightarrow> atom \<Rightarrow> item" where
  "repeatItem op a = (if op = CHR ''*'' then Star a else if op = CHR ''+'' then Plus a else Quest a)"

text \<open>
  \<open>parseItems\<close> reads the pattern from the left. Its state is the reversed list of
  the items read, a counter that is 0 after an item without operator, 1 right after an
  operator (where \<open>?\<close> marks it non-greedy) and 2 after that mark, and whether the
  last byte was an unescaped backslash.
\<close>

definition parseStep :: "char \<Rightarrow> item list \<times> nat \<times> bool \<Rightarrow> string + item list \<times> nat \<times> bool" where
  "parseStep c st =
     (case st of (acc, rep, esc) \<Rightarrow>
      if esc then
        (if (of_char c :: nat) < 128 \<and> \<not> isAlnum c then Inr (One (Lit c) # acc, 0, False)
         else Inl ''outside the model'')
      else if c = CHR 0x5C then Inr (acc, rep, True)
      else if c = CHR ''.'' then Inr (One AnyNotNL # acc, 0, False)
      else if c = CHR ''^'' then Inr (Begin # acc, 0, False)
      else if c = CHR ''$'' then Inr (End # acc, 0, False)
      else if c = CHR ''*'' \<or> c = CHR ''+'' \<or> c = CHR ''?'' then
        (if rep = 1 \<and> c = CHR ''?'' then Inr (acc, 2, False)
         else if rep \<noteq> 0 then Inl ''invalid nested repetition operator''
         else (case acc of
                 [] \<Rightarrow> Inl ''missing argument to repetition operator''
               | One a # acc' \<Rightarrow> Inr (repeatItem c a # acc', 1, False)
               | _ \<Rightarrow> Inl ''outside the model''))
      else if c \<in> set ''()[]{}|'' \<or> (of_char c :: nat) \<ge> 128 then Inl ''outside the model''
      else Inr (One (Lit c) # acc, 0, False))"

fun parseItems :: "string \<Rightarrow> item list \<times> nat \<times> bool \<Rightarrow> string + item list" where
  "parseItems [] st =
     (case st of (acc, rep, esc) \<Rightarrow>
        if esc then Inl ''trailing backslash at end of expression'' else Inr (rev acc))"
| "parseItems (c # cs) st =
     (case parseStep c st of Inl err \<Rightarrow> Inl err | Inr st' \<Rightarrow> parseItems cs st')"

definition atomMatches :: "atom \<Rightarrow> char \<Rightarrow> bool" where
  "atomMatches a c = (case a of Lit d \<Rightarrow> c = d | AnyNotNL \<Rightarrow> c \<noteq> CHR 0x0A)"

text \<open>
  \<open>matchHere items s atStart\<close>: the items match a prefix of \<open>s\<close>, where \<open>atStart\<close> says
  that \<open>s\<close> is the whole text.
\<close>

fun matchHere :: "item list \<Rightarrow> string \<Rightarrow> bool \<Rightarrow> bool" where
  "matchHere [] s atStart = True"
| "matchHere (i # items) s atStart =
     (case i of
        Begin \<Rightarrow> atStart \<and> matchHere items s atStart
      | End \<Rightarrow> s = [] \<and> matchHere items s atStart
      | One a \<Rightarrow>
          (case s of [] \<Rightarrow> False | c # cs \<Rightarrow> atomMatches a c \<and> matchHere items cs False)
      | Star a \<Rightarrow>
          (matchHere items s atStart \<or>
           (case s of [] \<Rightarrow> False
            | c # cs \<Rightarrow> atomMatches a c \<and> matchHere (Star a # items) cs False))
      | Plus a \<Rightarrow>
          (case s of [] \<Rightarrow> False
           | c # cs \<Rightarrow> atomMatches a c \<and> matchHere (Star a # items) cs False)
      | Quest a \<Rightarrow>
          (matchHere items s atStart \<or>
           (case s of [] \<Rightarrow> False | c # cs \<Rightarrow> atomMatches a c \<and> matchHere items cs False)))"

fun searchFrom :: "item list \<Rightarrow> string \<Rightarrow> bool \<Rightarrow> bool" where
  "searchFrom items [] atStart = matchHere items [] atStart"
| "searchFrom items (c # cs) atStart = (matchHere items (c # cs) atStart \<or> searchFrom items cs False)"

definition goRegexp :: "item list regexp" where
  "goRegexp = \<lparr>Compile = (\<lambda>p. parseItems p ([], 0, False)),
               MatchString = (\<lambda>re s. searchFrom re s True)\<rparr>"

section \<open>The properties of the specification, as it words them\<close>

text \<open>
  Glob matching as the specification describes it: \<open>*\<close> matches any run of characters,
  every other character of the pattern matches itself, and the whole string must match.
\<close>

fun globMatch :: "string \<Rightarrow> string \<Rightarrow> bool" where
  "globMatch [] s = (s = [])"
| "globMatch (p # ps) [] = (p = CHR ''*'' \<and> globMatch ps [])"
| "globMatch (p # ps) (c # cs) =
     (if p = CHR ''*'' then globMatch ps (c # cs) \<or> globMatch (p # ps) cs
      else c = p \<and> globMatch ps cs)"

text \<open>
  The port that a list binds to a synthetic key: the last one with that key, if any. The
  Changes that reconciling by key gives at one key, from what each side binds to it.
\<close>

definition lastWithKey :: "PortIR list \<Rightarrow> string \<Rightarrow> PortIR option" where
  "lastWithKey ports k =
     (let ps = filter (\<lambda>p. portKey p = k) ports in if ps = [] then None else Some (last ps))"


text \<open>
  The characters of a glob pattern that have no meaning in a regular expression, what
  \<open>matchGlob\<close> rewrites one character of a pattern to, and the expression that the
  specification's reading of that character amounts to.
\<close>

definition plainChar :: "char \<Rightarrow> bool" where
  "plainChar c = ((of_char c :: nat) < 128 \<and> c \<noteq> CHR 0x5C \<and> c \<notin> set ''.^$*+?()[]{}|'')"

definition globChar :: "char \<Rightarrow> string" where
  "globChar c =
     (if c = CHR ''.'' then [CHR 0x5C, CHR ''.''] else if c = CHR ''*'' then ''.*'' else [c])"

definition globItem :: "char \<Rightarrow> item" where
  "globItem c = (if c = CHR ''*'' then Star AnyNotNL else One (Lit c))"

text \<open>
  The Summary recomputed from a list of Changes. A Change is at entity granularity when
  its path is the scope's collection and the entity name; a service counts as changed
  when a Change below entity granularity has its name.
\<close>

definition scopePrefix :: "Scope \<Rightarrow> string" where
  "scopePrefix s =
     (case s of ScopeService \<Rightarrow> ''services.'' | ScopeVolume \<Rightarrow> ''volumes.''
      | ScopeNetwork \<Rightarrow> ''networks.'')"

definition isEntityChange :: "Change \<Rightarrow> bool" where
  "isEntityChange c = (Path c = scopePrefix (Scope c) @ Name c)"

definition entityCount :: "Scope \<Rightarrow> ChangeKind \<Rightarrow> Change list \<Rightarrow> nat" where
  "entityCount s k cs = length (filter (\<lambda>c. isEntityChange c \<and> Scope c = s \<and> Kind c = k) cs)"

definition severityCount :: "Severity \<Rightarrow> Change list \<Rightarrow> nat" where
  "severityCount sev cs = length (filter (\<lambda>c. Severity c = sev) cs)"




text \<open>
  The kind invariant of the data model: an added Change has no before-value, a removed
  Change no after-value, a modified Change has both and they differ. The weaker form
  asks of a modified Change only that the two values differ.
\<close>

definition kindInvariant :: "Change \<Rightarrow> bool" where
  "kindInvariant c =
     (case Kind c of
        ChangeAdded \<Rightarrow> Before c = VNil
      | ChangeRemoved \<Rightarrow> After c = VNil
      | ChangeModified \<Rightarrow> Before c \<noteq> VNil \<and> After c \<noteq> VNil \<and> Before c \<noteq> After c)"

definition kindInvariantUnequal :: "Change \<Rightarrow> bool" where
  "kindInvariantUnequal c =
     (case Kind c of
        ChangeAdded \<Rightarrow> Before c = VNil
      | ChangeRemoved \<Rightarrow> After c = VNil
      | ChangeModified \<Rightarrow> Before c \<noteq> After c)"

section \<open>Facts about sorting and set difference\<close>

lemma set_insertLeft: "set (insertLeft lt x ys) = insert x (set ys)"
  by (induction ys) auto

lemma distinct_insertLeft: "distinct (insertLeft lt x ys) = (x \<notin> set ys \<and> distinct ys)"
  by (induction ys) (auto simp: set_insertLeft)

lemma set_foldl_insertLeft:
  "set (foldl (\<lambda>acc x. insertLeft lt x acc) acc xs) = set acc \<union> set xs"
  by (induction xs arbitrary: acc) (auto simp: set_insertLeft)

lemma distinct_foldl_insertLeft:
  "distinct (foldl (\<lambda>acc x. insertLeft lt x acc) acc xs)
     = (distinct acc \<and> distinct xs \<and> set acc \<inter> set xs = {})"
  by (induction xs arbitrary: acc) (auto simp: set_insertLeft distinct_insertLeft)

lemma set_insertionSort: "set (insertionSort lt xs) = set xs"
  by (simp add: insertionSort_def set_foldl_insertLeft)

lemma distinct_insertionSort: "distinct (insertionSort lt xs) = distinct xs"
  by (simp add: insertionSort_def distinct_foldl_insertLeft)

lemma length_insertLeft: "length (insertLeft lt x ys) = Suc (length ys)"
  by (induction ys) auto

lemma length_foldl_insertLeft:
  "length (foldl (\<lambda>acc x. insertLeft lt x acc) acc xs) = length acc + length xs"
  by (induction xs arbitrary: acc) (auto simp: length_insertLeft)

lemma length_insertionSort: "length (insertionSort lt xs) = length xs"
  by (simp add: insertionSort_def length_foldl_insertLeft)

lemma set_sortStrings: "set (sortStrings xs) = set xs"
  by (simp add: sortStrings_def set_insertionSort)

lemma distinct_sortStrings: "distinct (sortStrings xs) = distinct xs"
  by (simp add: sortStrings_def distinct_insertionSort)

lemma diffSets_added: "diffSets old new = (a, r, c) \<Longrightarrow> set a = set new - set old \<and> distinct a"
  by (auto simp: diffSets_def set_sortStrings distinct_sortStrings)

lemma diffSets_removed: "diffSets old new = (a, r, c) \<Longrightarrow> set r = set old - set new \<and> distinct r"
  by (auto simp: diffSets_def set_sortStrings distinct_sortStrings)

lemma diffSets_common: "diffSets old new = (a, r, c) \<Longrightarrow> set c = set old \<inter> set new \<and> distinct c"
  by (auto simp: diffSets_def set_sortStrings distinct_sortStrings)

lemma hd_insertLeft: "hd (insertLeft lt x ys) = (if ys \<noteq> [] \<and> lt x (hd ys) then hd ys else x)"
  by (cases ys) auto

lemma insertLeft_ne: "insertLeft lt x ys \<noteq> []"
  by (cases ys) auto

lemma successively_insertLeft:
  assumes "\<And>a b. lt a b \<Longrightarrow> \<not> lt b a"
  shows "successively (\<lambda>a b. \<not> lt a b) ys \<Longrightarrow> successively (\<lambda>a b. \<not> lt a b) (insertLeft lt x ys)"
proof (induction ys)
  case Nil
  then show ?case by simp
next
  case (Cons y ys)
  show ?case
  proof (cases "lt x y")
    case True
    have s: "successively (\<lambda>a b. \<not> lt a b) (insertLeft lt x ys)"
      using Cons by (cases ys) auto
    have "\<not> lt y (hd (insertLeft lt x ys))"
      using Cons.prems True assms by (cases ys) (auto)
    with s True show ?thesis
      using insertLeft_ne[of lt x ys] by (cases "insertLeft lt x ys") (auto simp: successively_Cons)
  next
    case False
    with Cons.prems show ?thesis by (simp)
  qed
qed

lemma successively_foldl_insertLeft:
  assumes "\<And>a b. lt a b \<Longrightarrow> \<not> lt b a"
  shows "successively (\<lambda>a b. \<not> lt a b) acc \<Longrightarrow>
         successively (\<lambda>a b. \<not> lt a b) (foldl (\<lambda>acc x. insertLeft lt x acc) acc xs)"
proof (induction xs arbitrary: acc)
  case Nil
  then show ?case by simp
next
  case (Cons x xs)
  have "successively (\<lambda>a b. \<not> lt a b) (insertLeft lt x acc)"
    using assms Cons.prems by (rule successively_insertLeft)
  from Cons.IH[OF this] show ?case by simp
qed

lemma inOrder_insertionSort:
  assumes "\<And>a b. lt a b \<Longrightarrow> \<not> lt b a"
  shows "inOrder lt (insertionSort lt xs)"
proof -
  have "successively (\<lambda>a b. \<not> lt a b) (foldl (\<lambda>acc x. insertLeft lt x acc) [] xs)"
    by (rule successively_foldl_insertLeft) (use assms in auto)
  then show ?thesis
    by (simp add: inOrder_def insertionSort_def)
qed

lemma foldl_insertLeft_inOrder:
  "successively (\<lambda>a b. \<not> lt b a) (rev acc @ xs) \<Longrightarrow>
   foldl (\<lambda>acc x. insertLeft lt x acc) acc xs = rev xs @ acc"
proof (induction xs arbitrary: acc)
  case Nil
  then show ?case by simp
next
  case (Cons x xs)
  have step: "insertLeft lt x acc = x # acc"
    using Cons.prems by (cases acc) (auto simp: successively_append_iff successively_Cons)
  have "successively (\<lambda>a b. \<not> lt b a) (rev (x # acc) @ xs)"
    using Cons.prems by simp
  from Cons.IH[OF this] step show ?case by simp
qed

lemma insertionSort_inOrder: "inOrder lt xs \<Longrightarrow> insertionSort lt xs = xs"
  using foldl_insertLeft_inOrder[of lt "[]" xs] by (simp add: inOrder_def insertionSort_def)

lemma insertionSort_idem:
  assumes "\<And>a b. lt a b \<Longrightarrow> \<not> lt b a"
  shows "insertionSort lt (insertionSort lt xs) = insertionSort lt xs"
  by (rule insertionSort_inOrder[OF inOrder_insertionSort[OF assms]])

lemma diffSets_cases:
  obtains a r c where "diffSets old new = (a, r, c)"
    "set a = set new - set old" "distinct a"
    "set r = set old - set new" "distinct r"
    "set c = set old \<inter> set new" "distinct c"
  using diffSets_added diffSets_removed diffSets_common
  by (metis prod_cases3)

lemma sortStrings_Nil [simp]: "sortStrings [] = []"
  by (simp add: sortStrings_def insertionSort_def)

lemma diffSets_same: "diffSets xs xs = ([], [], sortStrings (remdups xs))"
  by (simp add: diffSets_def)

lemma compareStringSlice_removed:
  assumes "item \<in> set old" "item \<notin> set new"
  shows "\<lparr>Kind = ChangeRemoved, Scope = ScopeService, Name = svcName,
           Path = path @ ''.'' @ item, Before = VString item, After = VNil,
           Severity = severity\<rparr> \<in> set (compareStringSlice svcName path old new severity)"
proof -
  obtain a r c where d: "diffSets old new = (a, r, c)" and r: "set r = set old - set new"
    by (rule diffSets_cases)
  from assms r have "item \<in> set r" by simp
  then show ?thesis
    by (auto simp: compareStringSlice_def d)
qed

lemma compareStringSlice_same [simp]: "compareStringSlice n p xs xs s = []"
  by (simp add: compareStringSlice_def diffSets_same)

lemma compareEnv_same [simp]: "compareEnv n b m m = []"
  by (simp add: compareEnv_def diffSets_same)

lemma comparePorts_same [simp]: "comparePorts n b ps ps = []"
  by (simp add: comparePorts_def diffSets_same)

lemma compareServiceVolumes_same [simp]: "compareServiceVolumes n b ps ps = []"
  by (simp add: compareServiceVolumes_def diffSets_same)

lemma ptrEqual_same [simp]: "ptrEqual p p"
  by (simp add: ptrEqual_def)

lemma sliceEqual_same [simp]: "sliceEqual p p"
  by (simp add: sliceEqual_def list_all2_same)

lemma healthcheckEqual_same [simp]: "healthcheckEqual p p"
  by (simp add: healthcheckEqual_def)

section \<open>Claims about the differ\<close>

text \<open>
  Claim C4, as the code has it. For a service present in both trees, an item of the old
  \<open>networks\<close> list that is missing from the new one gives a removed Change of severity
  \<open>info\<close>, and an item of the old \<open>depends_on\<close> list that is missing from the new one
  gives a removed Change of severity \<open>warning\<close>: \<open>compareService\<close> passes a different
  severity to \<open>compareStringSlice\<close> for each of the two lists.
\<close>

theorem removed_list_item_severity:
  "(item \<in> set (Networks old) \<and> item \<notin> set (Networks new) \<longrightarrow>
      \<lparr>Kind = ChangeRemoved, Scope = ScopeService, Name = name,
       Path = ''services.'' @ name @ ''.networks.'' @ item,
       Before = VString item, After = VNil, Severity = SeverityInfo\<rparr>
        \<in> set (compareService name old new))
   \<and> (item \<in> set (DependsOn old) \<and> item \<notin> set (DependsOn new) \<longrightarrow>
      \<lparr>Kind = ChangeRemoved, Scope = ScopeService, Name = name,
       Path = ''services.'' @ name @ ''.depends_on.'' @ item,
       Before = VString item, After = VNil, Severity = SeverityWarning\<rparr>
        \<in> set (compareService name old new))"
  using compareStringSlice_removed[of item "Networks old" "Networks new" name
          "''services.'' @ name @ ''.networks''" SeverityInfo]
        compareStringSlice_removed[of item "DependsOn old" "DependsOn new" name
          "''services.'' @ name @ ''.depends_on''" SeverityWarning]
  by (simp add: compareService_def Let_def)

text \<open>
  The claim as stated asks for \<open>warning\<close> on both lists. With the network \<open>backend\<close>
  removed from a service, the only Change is the removal, and its severity is \<open>info\<close>.
\<close>

theorem removed_network_item_counterexample:
  "compareService ''api'' (zeroServiceIR\<lparr>Networks := [''backend'']\<rparr>) zeroServiceIR =
     [\<lparr>Kind = ChangeRemoved, Scope = ScopeService, Name = ''api'',
       Path = ''services.api.networks.backend'',
       Before = VString ''backend'', After = VNil, Severity = SeverityInfo\<rparr>]"
  by (simp add: compareService_def zeroServiceIR_def compareStringSlice_def diffSets_def
        sortStrings_def insertionSort_def)

theorem removed_list_item_severity_witness:
  "''backend'' \<in> set (Networks (zeroServiceIR\<lparr>Networks := [''backend''], DependsOn := [''db'']\<rparr>))
   \<and> ''backend'' \<notin> set (Networks zeroServiceIR)
   \<and> \<lparr>Kind = ChangeRemoved, Scope = ScopeService, Name = ''api'',
       Path = ''services.api.networks.backend'',
       Before = VString ''backend'', After = VNil, Severity = SeverityInfo\<rparr>
        \<in> set (compareService ''api''
              (zeroServiceIR\<lparr>Networks := [''backend''], DependsOn := [''db'']\<rparr>) zeroServiceIR)
   \<and> ''db'' \<in> set (DependsOn (zeroServiceIR\<lparr>Networks := [''backend''], DependsOn := [''db'']\<rparr>))
   \<and> ''db'' \<notin> set (DependsOn zeroServiceIR)
   \<and> \<lparr>Kind = ChangeRemoved, Scope = ScopeService, Name = ''api'',
       Path = ''services.api.depends_on.db'',
       Before = VString ''db'', After = VNil, Severity = SeverityWarning\<rparr>
        \<in> set (compareService ''api''
              (zeroServiceIR\<lparr>Networks := [''backend''], DependsOn := [''db'']\<rparr>) zeroServiceIR)"
  using removed_list_item_severity[of "''backend''"
          "zeroServiceIR\<lparr>Networks := [''backend''], DependsOn := [''db'']\<rparr>" zeroServiceIR "''api''"]
        removed_list_item_severity[of "''db''"
          "zeroServiceIR\<lparr>Networks := [''backend''], DependsOn := [''db'']\<rparr>" zeroServiceIR "''api''"]
  by (simp add: zeroServiceIR_def)

section \<open>The Changes of a report\<close>

lemma Changes_AddChange [simp]: "Changes (AddChange r c) = Changes r @ [c]"
  by (simp add: AddChange_def Let_def)

lemma addChanges_Nil [simp]: "addChanges r [] = r"
  by (simp add: addChanges_def)

lemma addChanges_append: "addChanges (addChanges r xs) ys = addChanges r (xs @ ys)"
  by (simp add: addChanges_def)

lemma addChanges_snoc: "addChanges r (xs @ [c]) = AddChange (addChanges r xs) c"
  by (simp add: addChanges_def)

lemma Changes_addChanges [simp]: "Changes (addChanges r cs) = Changes r @ cs"
  by (induction cs rule: rev_induct) (simp_all add: addChanges_snoc)

lemma changed_loop:
  "foldl (\<lambda>(r, n) name. let changes = f name in
            if length changes > 0 then (addChanges r changes, n + 1) else (r, n)) (r0, n0) names
   = (addChanges r0 (concat (map f names)), n0 + length (filter (\<lambda>name. f name \<noteq> []) names))"
proof -
  define F where "F = (\<lambda>(r, n) name. let changes = f name in
            if length changes > 0 then (addChanges r changes, n + (1::nat)) else (r, n))"
  have step: "\<And>r n x. F (r, n) x =
      (addChanges r (f x), n + length (filter (\<lambda>name. f name \<noteq> []) [x]))"
    by (simp add: F_def Let_def)
  have "foldl F (r0, n0) names
      = (addChanges r0 (concat (map f names)), n0 + length (filter (\<lambda>name. f name \<noteq> []) names))"
  proof (induction names arbitrary: r0 n0)
    case Nil
    then show ?case by simp
  next
    case (Cons x xs)
    have "foldl F (r0, n0) (x # xs) = foldl F (F (r0, n0) x) xs" by simp
    also have "\<dots> = (addChanges (addChanges r0 (f x)) (concat (map f xs)),
        n0 + length (filter (\<lambda>name. f name \<noteq> []) [x])
          + length (filter (\<lambda>name. f name \<noteq> []) xs))"
      unfolding step by (rule Cons.IH)
    finally show ?case by (simp add: addChanges_append)
  qed
  then show ?thesis by (simp add: F_def)
qed

lemma Changes_compareServices:
  "Changes (compareServices old new r) =
     (case diffSets (mapKeys old) (mapKeys new) of (added, removed, common) \<Rightarrow>
        Changes r
        @ map (\<lambda>name. \<lparr>Kind = ChangeAdded, Scope = ScopeService, Name = name,
                    Path = ''services.'' @ name,
                    Before = VNil, After = VService (index zeroServiceIR new name),
                    Severity = SeverityInfo\<rparr>) added
        @ map (\<lambda>name. \<lparr>Kind = ChangeRemoved, Scope = ScopeService, Name = name,
                    Path = ''services.'' @ name,
                    Before = VService (index zeroServiceIR old name), After = VNil,
                    Severity = SeverityBreaking\<rparr>) removed
        @ concat (map (\<lambda>name. compareService name (index zeroServiceIR old name)
                                   (index zeroServiceIR new name)) common))"
  unfolding compareServices_def changed_loop
  by (simp add: Let_def split: prod.splits)

lemma Changes_compareVolumes:
  "Changes (compareVolumes old new r) =
     (case diffSets (mapKeys old) (mapKeys new) of (added, removed, common) \<Rightarrow>
        Changes r
        @ map (\<lambda>name. \<lparr>Kind = ChangeAdded, Scope = ScopeVolume, Name = name,
                    Path = ''volumes.'' @ name,
                    Before = VNil, After = VVolume (index zeroVolumeIR new name),
                    Severity = SeverityInfo\<rparr>) added
        @ map (\<lambda>name. \<lparr>Kind = ChangeRemoved, Scope = ScopeVolume, Name = name,
                    Path = ''volumes.'' @ name,
                    Before = VVolume (index zeroVolumeIR old name), After = VNil,
                    Severity = SeverityBreaking\<rparr>) removed)"
  by (simp add: compareVolumes_def Let_def split: prod.splits)

lemma Changes_compareNetworks:
  "Changes (compareNetworks old new r) =
     (case diffSets (mapKeys old) (mapKeys new) of (added, removed, common) \<Rightarrow>
        Changes r
        @ map (\<lambda>name. \<lparr>Kind = ChangeAdded, Scope = ScopeNetwork, Name = name,
                    Path = ''networks.'' @ name,
                    Before = VNil, After = VNetwork (index zeroNetworkIR new name),
                    Severity = SeverityInfo\<rparr>) added
        @ map (\<lambda>name. \<lparr>Kind = ChangeRemoved, Scope = ScopeNetwork, Name = name,
                    Path = ''networks.'' @ name,
                    Before = VNetwork (index zeroNetworkIR old name), After = VNil,
                    Severity = SeverityWarning\<rparr>) removed)"
  by (simp add: compareNetworks_def Let_def split: prod.splits)

lemma compareEnv_Name: "c \<in> set (compareEnv n b old new) \<Longrightarrow> Name c = n \<and> Scope c = ScopeService"
  by (auto simp: compareEnv_def Let_def split: prod.splits if_splits)

lemma comparePorts_Name: "c \<in> set (comparePorts n b old new) \<Longrightarrow> Name c = n \<and> Scope c = ScopeService"
  by (auto simp: comparePorts_def Let_def split: prod.splits if_splits)

lemma compareServiceVolumes_Name:
  "c \<in> set (compareServiceVolumes n b old new) \<Longrightarrow> Name c = n \<and> Scope c = ScopeService"
  by (auto simp: compareServiceVolumes_def Let_def split: prod.splits if_splits)

lemma compareStringSlice_Name:
  "c \<in> set (compareStringSlice n p old new s) \<Longrightarrow> Name c = n \<and> Scope c = ScopeService"
  by (auto simp: compareStringSlice_def split: prod.splits)

lemma compareService_Name:
  "c \<in> set (compareService n old new) \<Longrightarrow> Name c = n \<and> Scope c = ScopeService"
  unfolding compareService_def Let_def set_append Un_iff
  by (elim disjE)
     (auto dest: compareEnv_Name comparePorts_Name compareServiceVolumes_Name
        compareStringSlice_Name split: if_splits)

lemma filter_eq_distinct:
  "distinct xs \<Longrightarrow> filter (\<lambda>x. x = y) xs = (if y \<in> set xs then [y] else [])"
  by (induction xs) auto

lemma filter_map_key:
  assumes "distinct xs" "\<And>x. P (f x) = (x = y)"
  shows "filter P (map f xs) = (if y \<in> set xs then [f y] else [])"
  using filter_eq_distinct[OF assms(1), of y]
  by (simp add: filter_map o_def assms(2))

lemma filter_none: "(\<And>x. x \<in> set xs \<Longrightarrow> \<not> P x) \<Longrightarrow> filter P xs = []"
  by (induction xs) auto

lemma set_mapKeys [simp]: "set (mapKeys m) = fst ` set m"
  by (simp add: mapKeys_def)

lemma Changes_Compare:
  "Changes (Compare old new) =
     Changes (compareServices (IRServices old) (IRServices new) NewDiffReport)
     @ (case diffSets (mapKeys (IRVolumes old)) (mapKeys (IRVolumes new)) of (added, removed, common) \<Rightarrow>
        map (\<lambda>name. \<lparr>Kind = ChangeAdded, Scope = ScopeVolume, Name = name,
                    Path = ''volumes.'' @ name,
                    Before = VNil, After = VVolume (index zeroVolumeIR (IRVolumes new) name),
                    Severity = SeverityInfo\<rparr>) added
        @ map (\<lambda>name. \<lparr>Kind = ChangeRemoved, Scope = ScopeVolume, Name = name,
                    Path = ''volumes.'' @ name,
                    Before = VVolume (index zeroVolumeIR (IRVolumes old) name), After = VNil,
                    Severity = SeverityBreaking\<rparr>) removed)
     @ (case diffSets (mapKeys (IRNetworks old)) (mapKeys (IRNetworks new)) of (added, removed, common) \<Rightarrow>
        map (\<lambda>name. \<lparr>Kind = ChangeAdded, Scope = ScopeNetwork, Name = name,
                    Path = ''networks.'' @ name,
                    Before = VNil, After = VNetwork (index zeroNetworkIR (IRNetworks new) name),
                    Severity = SeverityInfo\<rparr>) added
        @ map (\<lambda>name. \<lparr>Kind = ChangeRemoved, Scope = ScopeNetwork, Name = name,
                    Path = ''networks.'' @ name,
                    Before = VNetwork (index zeroNetworkIR (IRNetworks old) name), After = VNil,
                    Severity = SeverityWarning\<rparr>) removed)"
  by (simp add: Compare_def Changes_compareVolumes Changes_compareNetworks split: prod.splits)

lemma removed_service_changes:
  assumes "name \<in> set (mapKeys old)" "name \<notin> set (mapKeys new)"
  shows "filter (\<lambda>c. Kind c = ChangeRemoved \<and> Scope c = ScopeService \<and> Name c = name)
           (Changes (compareServices old new NewDiffReport))
         = [\<lparr>Kind = ChangeRemoved, Scope = ScopeService, Name = name,
             Path = ''services.'' @ name,
             Before = VService (index zeroServiceIR old name), After = VNil,
             Severity = SeverityBreaking\<rparr>]"
proof -
  obtain a r c where d: "diffSets (mapKeys old) (mapKeys new) = (a, r, c)"
    and r: "set r = set (mapKeys old) - set (mapKeys new)" "distinct r"
    and c: "set c = set (mapKeys old) \<inter> set (mapKeys new)"
    by (rule diffSets_cases)
  let ?P = "\<lambda>c. Kind c = ChangeRemoved \<and> Scope c = ScopeService \<and> Name c = name"
  have 1: "filter ?P (map (\<lambda>name. \<lparr>Kind = ChangeAdded, Scope = ScopeService, Name = name,
                    Path = ''services.'' @ name,
                    Before = VNil, After = VService (index zeroServiceIR new name),
                    Severity = SeverityInfo\<rparr>) a) = []"
    by (rule filter_none) auto
  have 2: "filter ?P (map (\<lambda>name. \<lparr>Kind = ChangeRemoved, Scope = ScopeService, Name = name,
                    Path = ''services.'' @ name,
                    Before = VService (index zeroServiceIR old name), After = VNil,
                    Severity = SeverityBreaking\<rparr>) r)
        = [\<lparr>Kind = ChangeRemoved, Scope = ScopeService, Name = name,
             Path = ''services.'' @ name,
             Before = VService (index zeroServiceIR old name), After = VNil,
             Severity = SeverityBreaking\<rparr>]"
    using assms r(1) by (subst filter_map_key[OF r(2), where y = name]) auto
  have 3: "filter ?P (concat (map (\<lambda>name. compareService name (index zeroServiceIR old name)
                                   (index zeroServiceIR new name)) c)) = []"
  proof (rule filter_none)
    fix x assume "x \<in> set (concat (map (\<lambda>name. compareService name (index zeroServiceIR old name)
                                   (index zeroServiceIR new name)) c))"
    then obtain n where "n \<in> set c" "x \<in> set (compareService n (index zeroServiceIR old n)
                                   (index zeroServiceIR new n))" by auto
    then have "Name x = n" "n \<in> set (mapKeys new)"
      using compareService_Name c by auto
    with assms(2) show "\<not> ?P x" by auto
  qed
  show ?thesis
    unfolding Changes_compareServices d
    by (simp only: prod.case filter_append 1 2 3) (simp add: NewDiffReport_def)
qed

lemma removed_volume_changes:
  assumes "name \<in> set (mapKeys old)" "name \<notin> set (mapKeys new)"
  shows "filter (\<lambda>c. Kind c = ChangeRemoved \<and> Scope c = ScopeVolume \<and> Name c = name)
           (case diffSets (mapKeys old) (mapKeys new) of (added, removed, common) \<Rightarrow>
        map (\<lambda>name. \<lparr>Kind = ChangeAdded, Scope = ScopeVolume, Name = name,
                    Path = ''volumes.'' @ name,
                    Before = VNil, After = VVolume (index zeroVolumeIR new name),
                    Severity = SeverityInfo\<rparr>) added
        @ map (\<lambda>name. \<lparr>Kind = ChangeRemoved, Scope = ScopeVolume, Name = name,
                    Path = ''volumes.'' @ name,
                    Before = VVolume (index zeroVolumeIR old name), After = VNil,
                    Severity = SeverityBreaking\<rparr>) removed)
         = [\<lparr>Kind = ChangeRemoved, Scope = ScopeVolume, Name = name,
             Path = ''volumes.'' @ name,
             Before = VVolume (index zeroVolumeIR old name), After = VNil,
             Severity = SeverityBreaking\<rparr>]"
proof -
  obtain a r c where d: "diffSets (mapKeys old) (mapKeys new) = (a, r, c)"
    and r: "set r = set (mapKeys old) - set (mapKeys new)" "distinct r"
    by (rule diffSets_cases)
  let ?P = "\<lambda>c. Kind c = ChangeRemoved \<and> Scope c = ScopeVolume \<and> Name c = name"
  have 1: "filter ?P (map (\<lambda>name. \<lparr>Kind = ChangeAdded, Scope = ScopeVolume, Name = name,
                    Path = ''volumes.'' @ name,
                    Before = VNil, After = VVolume (index zeroVolumeIR new name),
                    Severity = SeverityInfo\<rparr>) a) = []"
    by (rule filter_none) auto
  have 2: "filter ?P (map (\<lambda>name. \<lparr>Kind = ChangeRemoved, Scope = ScopeVolume, Name = name,
                    Path = ''volumes.'' @ name,
                    Before = VVolume (index zeroVolumeIR old name), After = VNil,
                    Severity = SeverityBreaking\<rparr>) r)
        = [\<lparr>Kind = ChangeRemoved, Scope = ScopeVolume, Name = name,
             Path = ''volumes.'' @ name,
             Before = VVolume (index zeroVolumeIR old name), After = VNil,
             Severity = SeverityBreaking\<rparr>]"
    using assms r(1) by (subst filter_map_key[OF r(2), where y = name]) auto
  show ?thesis
    unfolding d by (simp only: prod.case filter_append 1 2) simp
qed

lemma removed_network_changes:
  assumes "name \<in> set (mapKeys old)" "name \<notin> set (mapKeys new)"
  shows "filter (\<lambda>c. Kind c = ChangeRemoved \<and> Scope c = ScopeNetwork \<and> Name c = name)
           (case diffSets (mapKeys old) (mapKeys new) of (added, removed, common) \<Rightarrow>
        map (\<lambda>name. \<lparr>Kind = ChangeAdded, Scope = ScopeNetwork, Name = name,
                    Path = ''networks.'' @ name,
                    Before = VNil, After = VNetwork (index zeroNetworkIR new name),
                    Severity = SeverityInfo\<rparr>) added
        @ map (\<lambda>name. \<lparr>Kind = ChangeRemoved, Scope = ScopeNetwork, Name = name,
                    Path = ''networks.'' @ name,
                    Before = VNetwork (index zeroNetworkIR old name), After = VNil,
                    Severity = SeverityWarning\<rparr>) removed)
         = [\<lparr>Kind = ChangeRemoved, Scope = ScopeNetwork, Name = name,
             Path = ''networks.'' @ name,
             Before = VNetwork (index zeroNetworkIR old name), After = VNil,
             Severity = SeverityWarning\<rparr>]"
proof -
  obtain a r c where d: "diffSets (mapKeys old) (mapKeys new) = (a, r, c)"
    and r: "set r = set (mapKeys old) - set (mapKeys new)" "distinct r"
    by (rule diffSets_cases)
  let ?P = "\<lambda>c. Kind c = ChangeRemoved \<and> Scope c = ScopeNetwork \<and> Name c = name"
  have 1: "filter ?P (map (\<lambda>name. \<lparr>Kind = ChangeAdded, Scope = ScopeNetwork, Name = name,
                    Path = ''networks.'' @ name,
                    Before = VNil, After = VNetwork (index zeroNetworkIR new name),
                    Severity = SeverityInfo\<rparr>) a) = []"
    by (rule filter_none) auto
  have 2: "filter ?P (map (\<lambda>name. \<lparr>Kind = ChangeRemoved, Scope = ScopeNetwork, Name = name,
                    Path = ''networks.'' @ name,
                    Before = VNetwork (index zeroNetworkIR old name), After = VNil,
                    Severity = SeverityWarning\<rparr>) r)
        = [\<lparr>Kind = ChangeRemoved, Scope = ScopeNetwork, Name = name,
             Path = ''networks.'' @ name,
             Before = VNetwork (index zeroNetworkIR old name), After = VNil,
             Severity = SeverityWarning\<rparr>]"
    using assms r(1) by (subst filter_map_key[OF r(2), where y = name]) auto
  show ?thesis
    unfolding d by (simp only: prod.case filter_append 1 2) simp
qed

lemma scope_filter_services:
  "s \<noteq> ScopeService \<Longrightarrow>
   filter (\<lambda>c. Kind c = k \<and> Scope c = s \<and> Name c = name)
     (Changes (compareServices old new NewDiffReport)) = []"
proof (rule filter_none)
  fix x assume s: "s \<noteq> ScopeService"
    and "x \<in> set (Changes (compareServices old new NewDiffReport))"
  then have "Scope x = ScopeService"
    unfolding Changes_compareServices
    by (auto simp: NewDiffReport_def dest: compareService_Name split: prod.splits)
  with s show "\<not> (Kind x = k \<and> Scope x = s \<and> Name x = name)" by auto
qed

lemma scope_filter_volumes:
  "s \<noteq> ScopeVolume \<Longrightarrow>
   filter (\<lambda>c. Kind c = k \<and> Scope c = s \<and> Name c = name)
     (case diffSets xs ys of (added, removed, common) \<Rightarrow>
        map (\<lambda>name. \<lparr>Kind = ChangeAdded, Scope = ScopeVolume, Name = name,
                    Path = ''volumes.'' @ name,
                    Before = VNil, After = VVolume (f name),
                    Severity = SeverityInfo\<rparr>) added
        @ map (\<lambda>name. \<lparr>Kind = ChangeRemoved, Scope = ScopeVolume, Name = name,
                    Path = ''volumes.'' @ name,
                    Before = VVolume (g name), After = VNil,
                    Severity = SeverityBreaking\<rparr>) removed) = []"
  by (rule filter_none) (auto split: prod.splits)

lemma scope_filter_networks:
  "s \<noteq> ScopeNetwork \<Longrightarrow>
   filter (\<lambda>c. Kind c = k \<and> Scope c = s \<and> Name c = name)
     (case diffSets xs ys of (added, removed, common) \<Rightarrow>
        map (\<lambda>name. \<lparr>Kind = ChangeAdded, Scope = ScopeNetwork, Name = name,
                    Path = ''networks.'' @ name,
                    Before = VNil, After = VNetwork (f name),
                    Severity = SeverityInfo\<rparr>) added
        @ map (\<lambda>name. \<lparr>Kind = ChangeRemoved, Scope = ScopeNetwork, Name = name,
                    Path = ''networks.'' @ name,
                    Before = VNetwork (g name), After = VNil,
                    Severity = SeverityWarning\<rparr>) removed) = []"
  by (rule filter_none) (auto split: prod.splits)

text \<open>
  Claim C1, as the code has it. For every pair of trees and every entity name that the
  old tree has and the new tree lacks, the report holds exactly one removed Change with
  that scope and name; it is at entity granularity (its path is the collection and the
  name), and its severity is \<open>breaking\<close> for a service and for a volume, and
  \<open>warning\<close> for a network.
\<close>

theorem removed_entity_change:
  "(name \<in> set (mapKeys (IRServices old)) \<and> name \<notin> set (mapKeys (IRServices new)) \<longrightarrow>
      filter (\<lambda>c. Kind c = ChangeRemoved \<and> Scope c = ScopeService \<and> Name c = name)
        (Changes (Compare old new))
      = [\<lparr>Kind = ChangeRemoved, Scope = ScopeService, Name = name,
          Path = ''services.'' @ name,
          Before = VService (index zeroServiceIR (IRServices old) name), After = VNil,
          Severity = SeverityBreaking\<rparr>])
   \<and> (name \<in> set (mapKeys (IRVolumes old)) \<and> name \<notin> set (mapKeys (IRVolumes new)) \<longrightarrow>
      filter (\<lambda>c. Kind c = ChangeRemoved \<and> Scope c = ScopeVolume \<and> Name c = name)
        (Changes (Compare old new))
      = [\<lparr>Kind = ChangeRemoved, Scope = ScopeVolume, Name = name,
          Path = ''volumes.'' @ name,
          Before = VVolume (index zeroVolumeIR (IRVolumes old) name), After = VNil,
          Severity = SeverityBreaking\<rparr>])
   \<and> (name \<in> set (mapKeys (IRNetworks old)) \<and> name \<notin> set (mapKeys (IRNetworks new)) \<longrightarrow>
      filter (\<lambda>c. Kind c = ChangeRemoved \<and> Scope c = ScopeNetwork \<and> Name c = name)
        (Changes (Compare old new))
      = [\<lparr>Kind = ChangeRemoved, Scope = ScopeNetwork, Name = name,
          Path = ''networks.'' @ name,
          Before = VNetwork (index zeroNetworkIR (IRNetworks old) name), After = VNil,
          Severity = SeverityWarning\<rparr>])"
proof (intro conjI impI)
  assume "name \<in> set (mapKeys (IRServices old)) \<and> name \<notin> set (mapKeys (IRServices new))"
  then show "filter (\<lambda>c. Kind c = ChangeRemoved \<and> Scope c = ScopeService \<and> Name c = name)
        (Changes (Compare old new))
      = [\<lparr>Kind = ChangeRemoved, Scope = ScopeService, Name = name,
          Path = ''services.'' @ name,
          Before = VService (index zeroServiceIR (IRServices old) name), After = VNil,
          Severity = SeverityBreaking\<rparr>]"
    unfolding Changes_Compare filter_append
    by (simp only: removed_service_changes scope_filter_volumes scope_filter_networks
          Scope.simps simp_thms append_Nil2)
next
  assume "name \<in> set (mapKeys (IRVolumes old)) \<and> name \<notin> set (mapKeys (IRVolumes new))"
  then show "filter (\<lambda>c. Kind c = ChangeRemoved \<and> Scope c = ScopeVolume \<and> Name c = name)
        (Changes (Compare old new))
      = [\<lparr>Kind = ChangeRemoved, Scope = ScopeVolume, Name = name,
          Path = ''volumes.'' @ name,
          Before = VVolume (index zeroVolumeIR (IRVolumes old) name), After = VNil,
          Severity = SeverityBreaking\<rparr>]"
    unfolding Changes_Compare filter_append
    by (simp only: removed_volume_changes scope_filter_services scope_filter_networks
          Scope.simps simp_thms append_Nil2 append_Nil)
next
  assume "name \<in> set (mapKeys (IRNetworks old)) \<and> name \<notin> set (mapKeys (IRNetworks new))"
  then show "filter (\<lambda>c. Kind c = ChangeRemoved \<and> Scope c = ScopeNetwork \<and> Name c = name)
        (Changes (Compare old new))
      = [\<lparr>Kind = ChangeRemoved, Scope = ScopeNetwork, Name = name,
          Path = ''networks.'' @ name,
          Before = VNetwork (index zeroNetworkIR (IRNetworks old) name), After = VNil,
          Severity = SeverityWarning\<rparr>]"
    unfolding Changes_Compare filter_append
    by (simp only: removed_network_changes scope_filter_services scope_filter_volumes
          Scope.simps simp_thms append_Nil2 append_Nil)
qed

text \<open>
  The claim as stated asks for \<open>breaking\<close> in all three collections. Removing the only
  network of a tree gives one Change, the removal, and its severity is \<open>warning\<close>.
\<close>

theorem removed_network_counterexample:
  "Changes (Compare \<lparr>IRServices = [], IRVolumes = [], IRNetworks = [(''front'', zeroNetworkIR)]\<rparr>
                    \<lparr>IRServices = [], IRVolumes = [], IRNetworks = []\<rparr>)
   = [\<lparr>Kind = ChangeRemoved, Scope = ScopeNetwork, Name = ''front'',
       Path = ''networks.front'',
       Before = VNetwork zeroNetworkIR, After = VNil,
       Severity = SeverityWarning\<rparr>]"
  by (simp add: Compare_def compareServices_def compareVolumes_def compareNetworks_def
        NewDiffReport_def diffSets_def mapKeys_def sortStrings_def insertionSort_def
        addChanges_def AddChange_def index_def Let_def)

theorem removed_entity_change_witness:
  "''db'' \<in> set (mapKeys [(''db'', zeroServiceIR)]) \<and> ''db'' \<notin> set (mapKeys ([] :: ServiceIR gomap))
   \<and> ''db'' \<in> set (mapKeys [(''db'', zeroVolumeIR)]) \<and> ''db'' \<notin> set (mapKeys ([] :: VolumeIR gomap))
   \<and> ''db'' \<in> set (mapKeys [(''db'', zeroNetworkIR)]) \<and> ''db'' \<notin> set (mapKeys ([] :: NetworkIR gomap))
   \<and> filter (\<lambda>c. Kind c = ChangeRemoved \<and> Scope c = ScopeService \<and> Name c = ''db'')
        (Changes (Compare
           \<lparr>IRServices = [(''db'', zeroServiceIR)], IRVolumes = [(''db'', zeroVolumeIR)],
            IRNetworks = [(''db'', zeroNetworkIR)]\<rparr>
           \<lparr>IRServices = [], IRVolumes = [], IRNetworks = []\<rparr>))
      = [\<lparr>Kind = ChangeRemoved, Scope = ScopeService, Name = ''db'',
          Path = ''services.db'',
          Before = VService zeroServiceIR, After = VNil,
          Severity = SeverityBreaking\<rparr>]
   \<and> filter (\<lambda>c. Kind c = ChangeRemoved \<and> Scope c = ScopeVolume \<and> Name c = ''db'')
        (Changes (Compare
           \<lparr>IRServices = [(''db'', zeroServiceIR)], IRVolumes = [(''db'', zeroVolumeIR)],
            IRNetworks = [(''db'', zeroNetworkIR)]\<rparr>
           \<lparr>IRServices = [], IRVolumes = [], IRNetworks = []\<rparr>))
      = [\<lparr>Kind = ChangeRemoved, Scope = ScopeVolume, Name = ''db'',
          Path = ''volumes.db'',
          Before = VVolume zeroVolumeIR, After = VNil,
          Severity = SeverityBreaking\<rparr>]
   \<and> filter (\<lambda>c. Kind c = ChangeRemoved \<and> Scope c = ScopeNetwork \<and> Name c = ''db'')
        (Changes (Compare
           \<lparr>IRServices = [(''db'', zeroServiceIR)], IRVolumes = [(''db'', zeroVolumeIR)],
            IRNetworks = [(''db'', zeroNetworkIR)]\<rparr>
           \<lparr>IRServices = [], IRVolumes = [], IRNetworks = []\<rparr>))
      = [\<lparr>Kind = ChangeRemoved, Scope = ScopeNetwork, Name = ''db'',
          Path = ''networks.db'',
          Before = VNetwork zeroNetworkIR, After = VNil,
          Severity = SeverityWarning\<rparr>]"
  using removed_entity_change[of "''db''"
           "\<lparr>IRServices = [(''db'', zeroServiceIR)], IRVolumes = [(''db'', zeroVolumeIR)],
            IRNetworks = [(''db'', zeroNetworkIR)]\<rparr>"
           "\<lparr>IRServices = [], IRVolumes = [], IRNetworks = []\<rparr>"]
  by (simp add: index_def mapKeys_def)

lemma set_envKeys [simp]: "set (envKeys m) = fst ` set m"
  by (simp add: envKeys_def set_sortStrings)

lemma compareEnv_added:
  assumes "key \<in> fst ` set new" "key \<notin> fst ` set old"
  shows "\<lparr>Kind = ChangeAdded, Scope = ScopeService, Name = n,
           Path = b @ ''.environment.'' @ key,
           Before = VNil, After = ptrValue (index None new key),
           Severity = SeverityInfo\<rparr> \<in> set (compareEnv n b old new)"
proof -
  obtain a r c where d: "diffSets (envKeys old) (envKeys new) = (a, r, c)"
    and a: "set a = set (envKeys new) - set (envKeys old)"
    by (rule diffSets_cases)
  from assms a have "key \<in> set a" by simp
  then show ?thesis by (auto simp: compareEnv_def d)
qed

lemma compareEnv_removed:
  assumes "key \<in> fst ` set old" "key \<notin> fst ` set new"
  shows "\<lparr>Kind = ChangeRemoved, Scope = ScopeService, Name = n,
           Path = b @ ''.environment.'' @ key,
           Before = ptrValue (index None old key), After = VNil,
           Severity = SeverityBreaking\<rparr> \<in> set (compareEnv n b old new)"
proof -
  obtain a r c where d: "diffSets (envKeys old) (envKeys new) = (a, r, c)"
    and r: "set r = set (envKeys old) - set (envKeys new)"
    by (rule diffSets_cases)
  from assms r have "key \<in> set r" by simp
  then show ?thesis by (auto simp: compareEnv_def d)
qed

lemma ptrValue_inj [simp]: "(ptrValue a = ptrValue b) = (a = b)"
  by (simp add: ptrValue_def split: option.splits)

lemma compareEnv_modified:
  assumes "key \<in> fst ` set old" "key \<in> fst ` set new"
    "index None old key \<noteq> index None new key"
  shows "\<lparr>Kind = ChangeModified, Scope = ScopeService, Name = n,
           Path = b @ ''.environment.'' @ key,
           Before = ptrValue (index None old key), After = ptrValue (index None new key),
           Severity = SeverityWarning\<rparr> \<in> set (compareEnv n b old new)"
proof -
  obtain a r c where d: "diffSets (envKeys old) (envKeys new) = (a, r, c)"
    and c: "set c = set (envKeys old) \<inter> set (envKeys new)"
    by (rule diffSets_cases)
  from assms c have "key \<in> set c" by simp
  with assms(3) show ?thesis
    by (auto simp: compareEnv_def d Let_def intro!: bexI[of _ key])
qed

lemma compareEnv_in_compareService:
  "c \<in> set (compareEnv n (''services.'' @ n) (Env old) (Env new)) \<Longrightarrow>
   c \<in> set (compareService n old new)"
  by (simp add: compareService_def Let_def)

text \<open>
  Claim C3, as the code has it. For every pair of services present in both trees the
  \<open>environment\<close> map is reconciled by key: a key only in the new map gives an added
  Change, a key only in the old map a removed Change, and a key in both maps with
  different values a modified Change. The \<open>labels\<close> map is not compared: the Changes
  of a service do not depend on the labels of either side.
\<close>

theorem environment_reconciled_by_key:
  "(key \<in> fst ` set (Env new) \<and> key \<notin> fst ` set (Env old) \<longrightarrow>
      \<lparr>Kind = ChangeAdded, Scope = ScopeService, Name = name,
       Path = ''services.'' @ name @ ''.environment.'' @ key,
       Before = VNil, After = ptrValue (index None (Env new) key),
       Severity = SeverityInfo\<rparr> \<in> set (compareService name old new))
   \<and> (key \<in> fst ` set (Env old) \<and> key \<notin> fst ` set (Env new) \<longrightarrow>
      \<lparr>Kind = ChangeRemoved, Scope = ScopeService, Name = name,
       Path = ''services.'' @ name @ ''.environment.'' @ key,
       Before = ptrValue (index None (Env old) key), After = VNil,
       Severity = SeverityBreaking\<rparr> \<in> set (compareService name old new))
   \<and> (key \<in> fst ` set (Env old) \<and> key \<in> fst ` set (Env new)
        \<and> index None (Env old) key \<noteq> index None (Env new) key \<longrightarrow>
      \<lparr>Kind = ChangeModified, Scope = ScopeService, Name = name,
       Path = ''services.'' @ name @ ''.environment.'' @ key,
       Before = ptrValue (index None (Env old) key),
       After = ptrValue (index None (Env new) key),
       Severity = SeverityWarning\<rparr> \<in> set (compareService name old new))
   \<and> compareService name (old\<lparr>Labels := oldLabels\<rparr>) (new\<lparr>Labels := newLabels\<rparr>)
        = compareService name old new"
proof (intro conjI impI)
  assume "key \<in> fst ` set (Env new) \<and> key \<notin> fst ` set (Env old)"
  then show "\<lparr>Kind = ChangeAdded, Scope = ScopeService, Name = name,
       Path = ''services.'' @ name @ ''.environment.'' @ key,
       Before = VNil, After = ptrValue (index None (Env new) key),
       Severity = SeverityInfo\<rparr> \<in> set (compareService name old new)"
    using compareEnv_added[of key "Env new" "Env old" name "''services.'' @ name"]
    by (intro compareEnv_in_compareService) simp
next
  assume "key \<in> fst ` set (Env old) \<and> key \<notin> fst ` set (Env new)"
  then show "\<lparr>Kind = ChangeRemoved, Scope = ScopeService, Name = name,
       Path = ''services.'' @ name @ ''.environment.'' @ key,
       Before = ptrValue (index None (Env old) key), After = VNil,
       Severity = SeverityBreaking\<rparr> \<in> set (compareService name old new)"
    using compareEnv_removed[of key "Env old" "Env new" name "''services.'' @ name"]
    by (intro compareEnv_in_compareService) simp
next
  assume "key \<in> fst ` set (Env old) \<and> key \<in> fst ` set (Env new)
        \<and> index None (Env old) key \<noteq> index None (Env new) key"
  then show "\<lparr>Kind = ChangeModified, Scope = ScopeService, Name = name,
       Path = ''services.'' @ name @ ''.environment.'' @ key,
       Before = ptrValue (index None (Env old) key),
       After = ptrValue (index None (Env new) key),
       Severity = SeverityWarning\<rparr> \<in> set (compareService name old new)"
    using compareEnv_modified[of key "Env old" "Env new" name "''services.'' @ name"]
    by (intro compareEnv_in_compareService) simp
next
  show "compareService name (old\<lparr>Labels := oldLabels\<rparr>) (new\<lparr>Labels := newLabels\<rparr>)
        = compareService name old new"
    by (simp add: compareService_def Let_def)
qed

text \<open>
  The claim as stated has every difference in the labels give a Change. Two services
  that differ in the value of one label give no Change.
\<close>

theorem labels_counterexample:
  "compareService ''api'' (zeroServiceIR\<lparr>Labels := [(''tier'', ''web'')]\<rparr>)
     (zeroServiceIR\<lparr>Labels := [(''tier'', ''db'')]\<rparr>) = []"
  by (simp add: compareService_def zeroServiceIR_def)

theorem environment_reconciled_by_key_witness:
  "''B'' \<in> fst ` set (Env (zeroServiceIR\<lparr>Env := [(''B'', Some ''1''), (''C'', None)]\<rparr>))
   \<and> ''B'' \<notin> fst ` set (Env (zeroServiceIR\<lparr>Env := [(''A'', Some ''x''), (''C'', Some ''y'')]\<rparr>))
   \<and> \<lparr>Kind = ChangeAdded, Scope = ScopeService, Name = ''api'',
       Path = ''services.api.environment.B'',
       Before = VNil, After = VString ''1'',
       Severity = SeverityInfo\<rparr>
      \<in> set (compareService ''api'' (zeroServiceIR\<lparr>Env := [(''A'', Some ''x''), (''C'', Some ''y'')]\<rparr>)
            (zeroServiceIR\<lparr>Env := [(''B'', Some ''1''), (''C'', None)]\<rparr>))
   \<and> ''A'' \<in> fst ` set (Env (zeroServiceIR\<lparr>Env := [(''A'', Some ''x''), (''C'', Some ''y'')]\<rparr>))
   \<and> ''A'' \<notin> fst ` set (Env (zeroServiceIR\<lparr>Env := [(''B'', Some ''1''), (''C'', None)]\<rparr>))
   \<and> \<lparr>Kind = ChangeRemoved, Scope = ScopeService, Name = ''api'',
       Path = ''services.api.environment.A'',
       Before = VString ''x'', After = VNil,
       Severity = SeverityBreaking\<rparr>
      \<in> set (compareService ''api'' (zeroServiceIR\<lparr>Env := [(''A'', Some ''x''), (''C'', Some ''y'')]\<rparr>)
            (zeroServiceIR\<lparr>Env := [(''B'', Some ''1''), (''C'', None)]\<rparr>))
   \<and> ''C'' \<in> fst ` set (Env (zeroServiceIR\<lparr>Env := [(''A'', Some ''x''), (''C'', Some ''y'')]\<rparr>))
   \<and> ''C'' \<in> fst ` set (Env (zeroServiceIR\<lparr>Env := [(''B'', Some ''1''), (''C'', None)]\<rparr>))
   \<and> \<lparr>Kind = ChangeModified, Scope = ScopeService, Name = ''api'',
       Path = ''services.api.environment.C'',
       Before = VString ''y'', After = VNil,
       Severity = SeverityWarning\<rparr>
      \<in> set (compareService ''api'' (zeroServiceIR\<lparr>Env := [(''A'', Some ''x''), (''C'', Some ''y'')]\<rparr>)
            (zeroServiceIR\<lparr>Env := [(''B'', Some ''1''), (''C'', None)]\<rparr>))"
  using environment_reconciled_by_key[of "''B''"
          "zeroServiceIR\<lparr>Env := [(''B'', Some ''1''), (''C'', None)]\<rparr>"
          "zeroServiceIR\<lparr>Env := [(''A'', Some ''x''), (''C'', Some ''y'')]\<rparr>" "''api''"]
        environment_reconciled_by_key[of "''A''"
          "zeroServiceIR\<lparr>Env := [(''B'', Some ''1''), (''C'', None)]\<rparr>"
          "zeroServiceIR\<lparr>Env := [(''A'', Some ''x''), (''C'', Some ''y'')]\<rparr>" "''api''"]
        environment_reconciled_by_key[of "''C''"
          "zeroServiceIR\<lparr>Env := [(''B'', Some ''1''), (''C'', None)]\<rparr>"
          "zeroServiceIR\<lparr>Env := [(''A'', Some ''x''), (''C'', Some ''y'')]\<rparr>" "''api''"]
  by (simp add: index_def ptrValue_def)

lemma compareEnv_inv: "c \<in> set (compareEnv n b old new) \<Longrightarrow> kindInvariantUnequal c"
  by (auto simp: compareEnv_def kindInvariantUnequal_def Let_def split: prod.splits if_splits)

lemma comparePorts_inv: "c \<in> set (comparePorts n b old new) \<Longrightarrow> kindInvariantUnequal c"
  by (auto simp: comparePorts_def kindInvariantUnequal_def Let_def split: prod.splits if_splits)

lemma compareServiceVolumes_inv:
  "c \<in> set (compareServiceVolumes n b old new) \<Longrightarrow> kindInvariantUnequal c"
  by (auto simp: compareServiceVolumes_def kindInvariantUnequal_def Let_def
        split: prod.splits if_splits)

lemma compareStringSlice_inv:
  "c \<in> set (compareStringSlice n p old new s) \<Longrightarrow> kindInvariantUnequal c"
  by (auto simp: compareStringSlice_def kindInvariantUnequal_def split: prod.splits)

lemma ptrEqual_iff: "ptrEqual a b = (a = b)"
  by (cases a; cases b) (simp_all add: ptrEqual_def)

lemma sliceEqual_iff: "sliceEqual a b = (a = b)"
  by (auto simp: sliceEqual_def list_all2_eq[symmetric] dest: list_all2_lengthD)

lemma healthcheckEqual_iff: "healthcheckEqual a b = (a = b)"
  by (auto simp: healthcheckEqual_def)

lemma compareService_inv:
  "c \<in> set (compareService n old new) \<Longrightarrow> kindInvariantUnequal c"
  unfolding compareService_def Let_def set_append Un_iff
  by (elim disjE)
     (auto dest: compareEnv_inv comparePorts_inv compareServiceVolumes_inv compareStringSlice_inv
        simp: kindInvariantUnequal_def ptrEqual_iff sliceEqual_iff healthcheckEqual_iff
          changeKindForPtrs_def
        split: if_splits)

lemma Compare_inv: "c \<in> set (Changes (Compare old new)) \<Longrightarrow> kindInvariantUnequal c"
  unfolding Changes_Compare Changes_compareServices
  by (auto simp: NewDiffReport_def kindInvariantUnequal_def dest: compareService_inv
        split: prod.splits)

text \<open>
  Claim C6, as the code has it. Every Change of a report has an absent before-value when
  it is added, an absent after-value when it is removed, and unequal before- and
  after-values when it is modified; one of the two may be absent. In particular an
  environment variable that goes from a value to declared-unset gives a modified Change
  whose after-value is absent.
\<close>

theorem change_kind_invariant:
  "(\<forall>c \<in> set (Changes (Compare old new)). kindInvariantUnequal c)
   \<and> (map_of (Env o1) key = Some (Some v) \<and> map_of (Env o2) key = Some None \<longrightarrow>
        \<lparr>Kind = ChangeModified, Scope = ScopeService, Name = name,
         Path = ''services.'' @ name @ ''.environment.'' @ key,
         Before = VString v, After = VNil, Severity = SeverityWarning\<rparr>
          \<in> set (compareService name o1 o2))"
proof (intro conjI impI ballI)
  fix c assume "c \<in> set (Changes (Compare old new))"
  then show "kindInvariantUnequal c" by (rule Compare_inv)
next
  assume a: "map_of (Env o1) key = Some (Some v) \<and> map_of (Env o2) key = Some None"
  then have k: "key \<in> fst ` set (Env o1)" "key \<in> fst ` set (Env o2)"
    by (auto dest: map_of_SomeD intro: rev_image_eqI)
  from a have i: "index None (Env o1) key = Some v" "index None (Env o2) key = None"
    by (simp_all add: index_def)
  show "\<lparr>Kind = ChangeModified, Scope = ScopeService, Name = name,
         Path = ''services.'' @ name @ ''.environment.'' @ key,
         Before = VString v, After = VNil, Severity = SeverityWarning\<rparr>
          \<in> set (compareService name o1 o2)"
    using compareEnv_modified[of key "Env o1" "Env o2" name "''services.'' @ name"] k i
    by (intro compareEnv_in_compareService) (simp add: ptrValue_def)
qed

text \<open>
  The claim as stated asks both values of a modified Change to be present. A service
  that gains an image gives a modified Change whose before-value is absent.
\<close>

theorem change_kind_counterexample:
  "Changes (Compare
       \<lparr>IRServices = [(''api'', zeroServiceIR)], IRVolumes = [], IRNetworks = []\<rparr>
       \<lparr>IRServices = [(''api'', zeroServiceIR\<lparr>Image := Some ''nginx''\<rparr>)], IRVolumes = [],
        IRNetworks = []\<rparr>)
     = [\<lparr>Kind = ChangeModified, Scope = ScopeService, Name = ''api'',
         Path = ''services.api.image'', Before = VNil, After = VString ''nginx'',
         Severity = SeverityInfo\<rparr>]
   \<and> \<not> kindInvariant \<lparr>Kind = ChangeModified, Scope = ScopeService, Name = ''api'',
         Path = ''services.api.image'', Before = VNil, After = VString ''nginx'',
         Severity = SeverityInfo\<rparr>"
proof -
  have "compareService ''api'' zeroServiceIR (zeroServiceIR\<lparr>Image := Some ''nginx''\<rparr>)
      = [\<lparr>Kind = ChangeModified, Scope = ScopeService, Name = ''api'',
         Path = ''services.api.image'', Before = VNil, After = VString ''nginx'',
         Severity = SeverityInfo\<rparr>]"
    by (simp add: compareService_def zeroServiceIR_def ptrEqual_def ptrValue_def
          imageSeverity_def)
  then show ?thesis
    unfolding Changes_Compare Changes_compareServices
    by (simp add: diffSets_def mapKeys_def sortStrings_def insertionSort_def index_def
          NewDiffReport_def kindInvariant_def)
qed

theorem change_kind_invariant_witness:
  "\<lparr>Kind = ChangeModified, Scope = ScopeService, Name = ''api'',
         Path = ''services.api.environment.C'',
         Before = VString ''y'', After = VNil, Severity = SeverityWarning\<rparr>
     \<in> set (Changes (Compare
         \<lparr>IRServices = [(''api'', zeroServiceIR\<lparr>Env := [(''C'', Some ''y'')]\<rparr>)], IRVolumes = [],
          IRNetworks = []\<rparr>
         \<lparr>IRServices = [(''api'', zeroServiceIR\<lparr>Env := [(''C'', None)]\<rparr>)], IRVolumes = [],
          IRNetworks = []\<rparr>))
   \<and> kindInvariantUnequal \<lparr>Kind = ChangeModified, Scope = ScopeService, Name = ''api'',
         Path = ''services.api.environment.C'',
         Before = VString ''y'', After = VNil, Severity = SeverityWarning\<rparr>
   \<and> map_of (Env (zeroServiceIR\<lparr>Env := [(''C'', Some ''y'')]\<rparr>)) ''C'' = Some (Some ''y'')
   \<and> map_of (Env (zeroServiceIR\<lparr>Env := [(''C'', None)]\<rparr>)) ''C'' = Some None
   \<and> \<lparr>Kind = ChangeModified, Scope = ScopeService, Name = ''api'',
         Path = ''services.api.environment.C'',
         Before = VString ''y'', After = VNil, Severity = SeverityWarning\<rparr>
     \<in> set (compareService ''api'' (zeroServiceIR\<lparr>Env := [(''C'', Some ''y'')]\<rparr>)
              (zeroServiceIR\<lparr>Env := [(''C'', None)]\<rparr>))"
proof -
  let ?o1 = "zeroServiceIR\<lparr>Env := [(''C'', Some ''y'')]\<rparr>"
  let ?o2 = "zeroServiceIR\<lparr>Env := [(''C'', None)]\<rparr>"
  let ?old = "\<lparr>IRServices = [(''api'', ?o1)], IRVolumes = [], IRNetworks = []\<rparr>"
  let ?new = "\<lparr>IRServices = [(''api'', ?o2)], IRVolumes = [], IRNetworks = []\<rparr>"
  let ?c = "\<lparr>Kind = ChangeModified, Scope = ScopeService, Name = ''api'',
         Path = ''services.api.environment.C'',
         Before = VString ''y'', After = VNil, Severity = SeverityWarning\<rparr>"
  note t = change_kind_invariant[of ?old ?new ?o1 "''C''" "''y''" ?o2 "''api''"]
  have m: "map_of (Env ?o1) ''C'' = Some (Some ''y'')" "map_of (Env ?o2) ''C'' = Some None"
    by simp_all
  with t have cs: "?c \<in> set (compareService ''api'' ?o1 ?o2)" by simp
  have "?c \<in> set (Changes (Compare ?old ?new))"
    unfolding Changes_Compare Changes_compareServices using cs
    by (simp add: diffSets_def mapKeys_def sortStrings_def insertionSort_def index_def
          NewDiffReport_def)
  with t m cs show ?thesis by blast
qed

section \<open>Claims about the normalizer\<close>

lemma portLess_asym: "portLess a b \<Longrightarrow> \<not> portLess b a"
  by (auto simp: portLess_def split: if_splits)

lemma mountLess_asym: "mountLess a b \<Longrightarrow> \<not> mountLess b a"
  by (auto simp: mountLess_def)

lemma normalizePorts_idem: "normalizePorts (normalizePorts ps) = normalizePorts ps"
  by (simp add: normalizePorts_def length_insertionSort insertionSort_idem[OF portLess_asym])

lemma normalizeVolumes_idem: "normalizeVolumes (normalizeVolumes vs) = normalizeVolumes vs"
  by (simp add: normalizeVolumes_def length_insertionSort insertionSort_idem[OF mountLess_asym])

lemma sortedStrings_idem: "sortedStrings (sortedStrings xs) = sortedStrings xs"
proof -
  have "insertionSort (\<lambda>a b. a < b) (insertionSort (\<lambda>a b. a < b) xs)
      = insertionSort (\<lambda>a b. a < b) xs" for xs :: "string list"
    by (rule insertionSort_idem) auto
  then show ?thesis
    by (simp add: sortedStrings_def sortStrings_def length_insertionSort)
qed

lemma normalizeService_idem: "normalizeService (normalizeService svc) = normalizeService svc"
  by (simp add: normalizeService_def normalizePorts_idem normalizeVolumes_idem sortedStrings_idem)

lemma assign_fresh: "k \<notin> fst ` set m \<Longrightarrow> assign m k v = m @ [(k, v)]"
  by (induction m) auto

lemma keys_assign:
  "map fst (assign m k v) = (if k \<in> fst ` set m then map fst m else map fst m @ [k])"
  by (induction m) force+

lemma distinct_keys_assign: "distinct (map fst m) \<Longrightarrow> distinct (map fst (assign m k v))"
  by (simp add: keys_assign)

lemma set_assign: "set (assign m k v) \<subseteq> insert (k, v) (set m)"
  by (induction m) (auto split: if_splits)

lemma distinct_keys_entries:
  "distinct (map fst acc) \<Longrightarrow>
   distinct (map fst (foldl (\<lambda>m (name, x). assign m name (f x)) acc xs))"
  by (induction xs arbitrary: acc) (auto simp: distinct_keys_assign)

lemma values_entries:
  "(k, v) \<in> set (foldl (\<lambda>m (name, x). assign m name (f x)) acc xs) \<Longrightarrow>
   (k, v) \<in> set acc \<or> v \<in> range f"
proof (induction xs arbitrary: acc)
  case Nil
  then show ?case by simp
next
  case (Cons e es)
  obtain name x where e: "e = (name, x)" by (cases e)
  from Cons.prems have "(k, v) \<in> set (foldl (\<lambda>m (name, x). assign m name (f x))
      (assign acc name (f x)) es)" by (simp add: e)
  from Cons.IH[OF this] have "(k, v) \<in> set (assign acc name (f x)) \<or> v \<in> range f" .
  then show ?case using set_assign[of acc name "f x"] by auto
qed

lemma entries_distinct:
  "distinct (map fst xs) \<Longrightarrow> fst ` set acc \<inter> fst ` set xs = {} \<Longrightarrow>
   foldl (\<lambda>m (name, x). assign m name (f x)) acc xs = acc @ map (\<lambda>(name, x). (name, f x)) xs"
proof (induction xs arbitrary: acc)
  case Nil
  then show ?case by simp
next
  case (Cons e es)
  obtain name x where e: "e = (name, x)" by (cases e)
  from Cons.prems have fresh: "name \<notin> fst ` set acc" by (auto simp: e)
  have d: "distinct (map fst es)" using Cons.prems by simp
  have "fst ` set (acc @ [(name, f x)]) \<inter> fst ` set es = {}"
    using Cons.prems by (auto simp: e)
  from Cons.IH[OF d this] show ?case
    by (simp add: e assign_fresh[OF fresh])
qed

lemma entries_idem:
  assumes "\<And>x. f (f x) = f x"
  shows "foldl (\<lambda>m (name, x). assign m name (f x)) []
           (foldl (\<lambda>m (name, x). assign m name (f x)) [] xs)
         = foldl (\<lambda>m (name, x). assign m name (f x)) [] xs"
proof -
  let ?ys = "foldl (\<lambda>m (name, x). assign m name (f x)) [] xs"
  have d: "distinct (map fst ?ys)" by (rule distinct_keys_entries) simp
  have v: "\<And>k v. (k, v) \<in> set ?ys \<Longrightarrow> f v = v"
    using values_entries[of _ _ f "[]" xs] assms by auto
  have "foldl (\<lambda>m (name, x). assign m name (f x)) [] ?ys = map (\<lambda>(name, x). (name, f x)) ?ys"
    using entries_distinct[OF d, of "[]" f] by simp
  also have "\<dots> = map (\<lambda>e. e) ?ys"
    by (rule map_cong) (auto simp: v)
  finally show ?thesis by simp
qed

lemma normalizePorts_inOrder: "inOrder portLess (normalizePorts ps)"
  by (cases ps) (simp_all add: normalizePorts_def inOrder_def inOrder_insertionSort[OF portLess_asym, unfolded inOrder_def])

text \<open>
  Claim C9. Normalization is idempotent: normalizing a normalized tree gives the same
  tree. Each sorted list is returned unchanged by the second sort, and every map keeps
  its entries.
\<close>

theorem Normalize_idempotent: "Normalize (Normalize T) = Normalize T"
proof -
  have s: "foldl (\<lambda>m (name, svc). assign m name (normalizeService svc)) []
             (foldl (\<lambda>m (name, svc). assign m name (normalizeService svc)) [] (IRServices T))
           = foldl (\<lambda>m (name, svc). assign m name (normalizeService svc)) [] (IRServices T)"
    by (rule entries_idem) (rule normalizeService_idem)
  have v: "foldl (\<lambda>m (name, x). assign m name x) [] (foldl (\<lambda>m (name, x). assign m name x) [] xs)
           = foldl (\<lambda>m (name, x). assign m name x) [] xs" for xs :: "'v gomap"
    using entries_idem[of "\<lambda>x. x" xs] by simp
  show ?thesis
    by (simp add: Normalize_def s v)
qed

section \<open>Claims about the severity heuristics\<close>

lemma Contains_at: "Contains s ''@'' \<Longrightarrow> extractTag s = []"
  by (simp add: extractTag_def)

lemma extractMajorVersion_Nil [simp]: "extractMajorVersion [] = []"
  by (simp add: extractMajorVersion_def)

lemma extractMajorVersion_digits: "list_all isDigit (extractMajorVersion tag)"
  by (auto simp: extractMajorVersion_def Let_def list_all_iff dest: set_takeWhileD)

lemma isDigit_not_sign: "isDigit c \<Longrightarrow> c \<noteq> CHR ''-'' \<and> c \<noteq> CHR ''+''"
  by (auto simp: isDigit_def)

lemma Atoi_digits:
  assumes "m \<noteq> []" "list_all isDigit m"
  shows "Atoi m = min (2 ^ 63 - 1) (digitsValue m)"
proof -
  from assms obtain c cs where m: "m = c # cs" by (cases m) auto
  with assms have "isDigit c" by simp
  then have "c \<noteq> CHR ''-''" "c \<noteq> CHR ''+''" using isDigit_not_sign by auto
  then show ?thesis using assms by (simp add: Atoi_def validDigits_def m)
qed

lemma HasSuffix_append [simp]: "HasSuffix (xs @ suf) suf"
  by (simp add: HasSuffix_def)

lemma imageSeverity_majors:
  assumes "extractMajorVersion (extractTag old) \<noteq> []"
    "extractMajorVersion (extractTag new) \<noteq> []"
    "extractMajorVersion (extractTag old) \<noteq> extractMajorVersion (extractTag new)"
  shows "imageSeverity (Some old) (Some new) = SeverityWarning"
  using assms by (auto simp: imageSeverity_def Let_def)

lemma imageSeverity_digest:
  assumes "Contains old ''@'' \<or> Contains new ''@''"
  shows "imageSeverity (Some old) (Some new) = SeverityInfo"
  using assms by (auto simp: imageSeverity_def Let_def Contains_at)

lemmas eval_tag = extractMajorVersion_def extractTag_def LastIndex_def HasPrefix_def
  TrimPrefix_def isDigit_def Let_def

text \<open>
  What \<open>imageSeverity\<close> and \<open>IsBreakingChange\<close> do on a modified image reference. When
  both tags give a major version and the majors differ, the default severity is
  \<open>warning\<close>. When the new major is numerically lower than the old one and is below
  the largest 64-bit integer, \<open>IsBreakingChange\<close> holds of the Change and the default
  severity is still \<open>warning\<close>. When either reference is digest-based, the severity is
  \<open>info\<close>.
\<close>

lemma image_major_version_severity:
  "(extractMajorVersion (extractTag old) \<noteq> [] \<and> extractMajorVersion (extractTag new) \<noteq> []
      \<and> extractMajorVersion (extractTag old) \<noteq> extractMajorVersion (extractTag new)
     \<longrightarrow> imageSeverity (Some old) (Some new) = SeverityWarning)
   \<and> (extractMajorVersion (extractTag old) \<noteq> [] \<and> extractMajorVersion (extractTag new) \<noteq> []
      \<and> digitsValue (extractMajorVersion (extractTag new))
          < digitsValue (extractMajorVersion (extractTag old))
      \<and> digitsValue (extractMajorVersion (extractTag new)) < 2 ^ 63 - 1
     \<longrightarrow> IsBreakingChange \<lparr>Kind = ChangeModified, Scope = ScopeService, Name = name,
            Path = ''services.'' @ name @ ''.image'',
            Before = VString old, After = VString new,
            Severity = imageSeverity (Some old) (Some new)\<rparr>
         \<and> imageSeverity (Some old) (Some new) = SeverityWarning)
   \<and> (Contains old ''@'' \<or> Contains new ''@''
     \<longrightarrow> imageSeverity (Some old) (Some new) = SeverityInfo)"
proof (intro conjI impI)
  assume "extractMajorVersion (extractTag old) \<noteq> [] \<and> extractMajorVersion (extractTag new) \<noteq> []
      \<and> extractMajorVersion (extractTag old) \<noteq> extractMajorVersion (extractTag new)"
  then show "imageSeverity (Some old) (Some new) = SeverityWarning"
    by (simp add: imageSeverity_majors)
next
  assume a: "extractMajorVersion (extractTag old) \<noteq> [] \<and> extractMajorVersion (extractTag new) \<noteq> []
      \<and> digitsValue (extractMajorVersion (extractTag new))
          < digitsValue (extractMajorVersion (extractTag old))
      \<and> digitsValue (extractMajorVersion (extractTag new)) < 2 ^ 63 - 1"
  let ?o = "extractMajorVersion (extractTag old)" and ?n = "extractMajorVersion (extractTag new)"
  have o: "Atoi ?o = min (2 ^ 63 - 1) (digitsValue ?o)"
    using a by (intro Atoi_digits extractMajorVersion_digits) simp
  have n: "Atoi ?n = min (2 ^ 63 - 1) (digitsValue ?n)"
    using a by (intro Atoi_digits extractMajorVersion_digits) simp
  have lt: "Atoi ?n < Atoi ?o" unfolding o n using a by simp
  have suf: "HasSuffix (''services.'' @ name @ ''.image'') ''.image''"
    using HasSuffix_append[of "''services.'' @ name" "''.image''"] by simp
  show "IsBreakingChange \<lparr>Kind = ChangeModified, Scope = ScopeService, Name = name,
            Path = ''services.'' @ name @ ''.image'',
            Before = VString old, After = VString new,
            Severity = imageSeverity (Some old) (Some new)\<rparr>"
    unfolding IsBreakingChange_def using a lt suf by (simp add: Let_def)
  from a have "?o \<noteq> ?n" by auto
  with a show "imageSeverity (Some old) (Some new) = SeverityWarning"
    by (simp add: imageSeverity_majors)
next
  assume "Contains old ''@'' \<or> Contains new ''@''"
  then show "imageSeverity (Some old) (Some new) = SeverityInfo"
    by (rule imageSeverity_digest)
qed

lemma image_major_version_severity_example:
  "extractMajorVersion (extractTag ''node:20'') \<noteq> []
   \<and> extractMajorVersion (extractTag ''node:18'') \<noteq> []
   \<and> extractMajorVersion (extractTag ''node:20'') \<noteq> extractMajorVersion (extractTag ''node:18'')
   \<and> digitsValue (extractMajorVersion (extractTag ''node:18''))
        < digitsValue (extractMajorVersion (extractTag ''node:20''))
   \<and> digitsValue (extractMajorVersion (extractTag ''node:18'')) < 2 ^ 63 - 1
   \<and> imageSeverity (Some ''node:20'') (Some ''node:18'') = SeverityWarning
   \<and> IsBreakingChange \<lparr>Kind = ChangeModified, Scope = ScopeService, Name = ''api'',
            Path = ''services.'' @ ''api'' @ ''.image'',
            Before = VString ''node:20'', After = VString ''node:18'',
            Severity = imageSeverity (Some ''node:20'') (Some ''node:18'')\<rparr>
   \<and> Contains ''node@sha256:abc'' ''@''
   \<and> imageSeverity (Some ''node@sha256:abc'') (Some ''node:18'') = SeverityInfo"
proof -
  have o: "extractMajorVersion (extractTag ''node:20'') = ''20''"
    by (simp add: eval_tag)
  have n: "extractMajorVersion (extractTag ''node:18'') = ''18''"
    by (simp add: eval_tag)
  have c: "Contains ''node@sha256:abc'' ''@''"
    by (simp add: HasPrefix_def)
  have h1: "extractMajorVersion (extractTag ''node:20'') \<noteq> []"
    and h2: "extractMajorVersion (extractTag ''node:18'') \<noteq> []"
    and h3: "extractMajorVersion (extractTag ''node:20'') \<noteq> extractMajorVersion (extractTag ''node:18'')"
    and h4: "digitsValue (extractMajorVersion (extractTag ''node:18''))
        < digitsValue (extractMajorVersion (extractTag ''node:20''))"
    and h5: "digitsValue (extractMajorVersion (extractTag ''node:18'')) < 2 ^ 63 - 1"
    by (simp_all add: o n digitsValue_def)
  note t1 = image_major_version_severity[of "''node:20''" "''node:18''" "''api''"]
  note t2 = image_major_version_severity[of "''node@sha256:abc''" "''node:18''" "''api''"]
  have w1: "IsBreakingChange \<lparr>Kind = ChangeModified, Scope = ScopeService, Name = ''api'',
            Path = ''services.'' @ ''api'' @ ''.image'',
            Before = VString ''node:20'', After = VString ''node:18'',
            Severity = imageSeverity (Some ''node:20'') (Some ''node:18'')\<rparr>
         \<and> imageSeverity (Some ''node:20'') (Some ''node:18'') = SeverityWarning"
    using t1 h1 h2 h4 h5 by blast
  have w2: "imageSeverity (Some ''node@sha256:abc'') (Some ''node:18'') = SeverityInfo"
    using t2 c by blast
  show ?thesis
    using h1 h2 h3 h4 h5 w1 w2 c by blast
qed

text \<open>
  Claim C8. A new major version that is numerically lower than the old one is to make
  \<open>IsBreakingChange\<close> true, with the default severity \<open>warning\<close>. The predicate
  compares what \<open>strconv.Atoi\<close> returns and drops its range error, so two majors beyond
  the 64-bit range both come back as the largest integer. For the timestamp tags
  \<open>20240101120000123457\<close> and \<open>20240101120000123456\<close>, and for the tags
  \<open>9223372036854775809\<close> and \<open>9223372036854775808\<close>, the new major is the lower one,
  the default severity is \<open>warning\<close>, and \<open>IsBreakingChange\<close> is false.
\<close>

theorem image_downgrade_not_flagged:
  "digitsValue (extractMajorVersion (extractTag ''app:20240101120000123456''))
     < digitsValue (extractMajorVersion (extractTag ''app:20240101120000123457''))
   \<and> imageSeverity (Some ''app:20240101120000123457'') (Some ''app:20240101120000123456'')
       = SeverityWarning
   \<and> \<not> IsBreakingChange \<lparr>Kind = ChangeModified, Scope = ScopeService, Name = ''api'',
            Path = ''services.api.image'',
            Before = VString ''app:20240101120000123457'',
            After = VString ''app:20240101120000123456'',
            Severity = SeverityWarning\<rparr>
   \<and> digitsValue (extractMajorVersion (extractTag ''app:9223372036854775808''))
     < digitsValue (extractMajorVersion (extractTag ''app:9223372036854775809''))
   \<and> imageSeverity (Some ''app:9223372036854775809'') (Some ''app:9223372036854775808'')
       = SeverityWarning
   \<and> \<not> IsBreakingChange \<lparr>Kind = ChangeModified, Scope = ScopeService, Name = ''api'',
            Path = ''services.api.image'',
            Before = VString ''app:9223372036854775809'',
            After = VString ''app:9223372036854775808'',
            Severity = SeverityWarning\<rparr>"
proof -
  have t1: "extractTag ''app:20240101120000123457'' = ''20240101120000123457''"
    and t2: "extractTag ''app:20240101120000123456'' = ''20240101120000123456''"
    and t3: "extractTag ''app:9223372036854775809'' = ''9223372036854775809''"
    and t4: "extractTag ''app:9223372036854775808'' = ''9223372036854775808''"
    by (simp_all add: extractTag_def LastIndex_def HasPrefix_def)
  have m1: "extractMajorVersion ''20240101120000123457'' = ''20240101120000123457''"
    and m2: "extractMajorVersion ''20240101120000123456'' = ''20240101120000123456''"
    and m3: "extractMajorVersion ''9223372036854775809'' = ''9223372036854775809''"
    and m4: "extractMajorVersion ''9223372036854775808'' = ''9223372036854775808''"
    by (simp_all add: extractMajorVersion_def HasPrefix_def TrimPrefix_def isDigit_def)
  have a1: "Atoi ''20240101120000123457'' = 9223372036854775807"
    and a2: "Atoi ''20240101120000123456'' = 9223372036854775807"
    and a3: "Atoi ''9223372036854775809'' = 9223372036854775807"
    and a4: "Atoi ''9223372036854775808'' = 9223372036854775807"
    by (simp_all add: Atoi_def validDigits_def isDigit_def digitsValue_def)
  have s1: "imageSeverity (Some ''app:20240101120000123457'') (Some ''app:20240101120000123456'')
       = SeverityWarning"
    and s2: "imageSeverity (Some ''app:9223372036854775809'') (Some ''app:9223372036854775808'')
       = SeverityWarning"
    by (simp_all add: imageSeverity_def t1 t2 t3 t4 m1 m2 m3 m4)
  have d: "digitsValue ''20240101120000123456'' < digitsValue ''20240101120000123457''"
    "digitsValue ''9223372036854775808'' < digitsValue ''9223372036854775809''"
    by (simp_all add: digitsValue_def)
  show ?thesis
    unfolding IsBreakingChange_def
    by (simp add: t1 t2 t3 t4 m1 m2 m3 m4 a1 a2 a3 a4 s1 s2 d)
qed

section \<open>Claims about the rule engine\<close>

lemma isl_compileSeverities:
  "isl (compileSeverities lib srs)
     = (\<exists>sr \<in> set srs. srIsRegex sr \<and> isl (Compile lib (srPattern sr)))"
  by (induction srs) (auto split: sum.splits)

lemma isl_compileIgnores:
  "isl (compileIgnores lib irs)
     = (\<exists>ir \<in> set irs. irIsRegex ir \<and> isl (Compile lib (irPattern ir)))"
  by (induction irs) (auto split: sum.splits)

lemma compileSeverities_severity:
  "compileSeverities lib srs = Inr cs \<Longrightarrow> map csSeverity cs = map srSeverity srs"
  by (induction srs arbitrary: cs) (auto split: sum.splits if_splits)

lemma isl_compileRules:
  "isl (compileRules lib cfg)
     = (isl (compileSeverities lib (SeverityOverrides cfg))
        \<or> isl (compileIgnores lib (IgnorePatterns cfg)))"
  by (auto simp: compileRules_def split: sum.splits)

lemmas eval_regexp = matchGlob_def goRegexp_def globPattern_def repeatItem_def parseStep_def
  atomMatches_def isAlnum_def isDigit_def

text \<open>
  Claim C5, as the code has it. For every regexp library, rule loading returns either a
  rule set or a load error, and it returns the error exactly when a rule marked as a
  regular expression has a pattern that does not compile. Severity names are not
  checked: a loaded rule set carries the severity string of every override rule as it
  was written.
\<close>

theorem rule_loading_errors:
  "isl (compileRules lib cfg)
     = ((\<exists>sr \<in> set (SeverityOverrides cfg). srIsRegex sr \<and> isl (Compile lib (srPattern sr)))
        \<or> (\<exists>ir \<in> set (IgnorePatterns cfg). irIsRegex ir \<and> isl (Compile lib (irPattern ir))))
   \<and> (\<forall>rules. compileRules lib cfg = Inr rules \<longrightarrow>
         config rules = cfg
         \<and> map csSeverity (severityPatterns rules) = map srSeverity (SeverityOverrides cfg))"
proof (intro conjI allI impI)
  show "isl (compileRules lib cfg)
     = ((\<exists>sr \<in> set (SeverityOverrides cfg). srIsRegex sr \<and> isl (Compile lib (srPattern sr)))
        \<or> (\<exists>ir \<in> set (IgnorePatterns cfg). irIsRegex ir \<and> isl (Compile lib (irPattern ir))))"
    by (simp only: isl_compileRules isl_compileSeverities isl_compileIgnores)
next
  fix rules assume "compileRules lib cfg = Inr rules"
  then show "config rules = cfg"
    by (auto simp: compileRules_def split: sum.splits)
next
  fix rules assume "compileRules lib cfg = Inr rules"
  then show "map csSeverity (severityPatterns rules) = map srSeverity (SeverityOverrides cfg)"
    by (auto simp: compileRules_def compileSeverities_severity split: sum.splits)
qed

text \<open>
  The claim as stated has an unknown severity name rejected. An override rule with the
  severity \<open>critical\<close> is loaded, and the override then gives \<open>critical\<close> as the
  severity of a matching path.
\<close>

theorem unknown_severity_counterexample:
  "compileRules goRegexp
     \<lparr>Version = [],
      SeverityOverrides = [\<lparr>srPattern = ''*.image'', srSeverity = ''critical'', srIsRegex = False\<rparr>],
      IgnorePatterns = [], ServiceIgnores = [], Categories = []\<rparr>
   = Inr \<lparr>config = \<lparr>Version = [],
            SeverityOverrides = [\<lparr>srPattern = ''*.image'', srSeverity = ''critical'', srIsRegex = False\<rparr>],
            IgnorePatterns = [], ServiceIgnores = [], Categories = []\<rparr>,
          severityPatterns = [\<lparr>csPattern = None, csLiteral = ''*.image'',
                               csSeverity = ''critical'', csIsRegex = False\<rparr>],
          ignorePatterns = []\<rparr>
   \<and> GetSeverityOverride goRegexp
         [\<lparr>csPattern = None, csLiteral = ''*.image'', csSeverity = ''critical'', csIsRegex = False\<rparr>]
         ''services.api.image'' = Some (''critical'', True)"
  by (simp add: compileRules_def eval_regexp)

theorem rule_loading_errors_witness:
  "compileRules goRegexp
     \<lparr>Version = [],
      SeverityOverrides = [\<lparr>srPattern = ''a+'', srSeverity = ''critical'', srIsRegex = True\<rparr>],
      IgnorePatterns = [], ServiceIgnores = [], Categories = []\<rparr>
   = Inr \<lparr>config = \<lparr>Version = [],
            SeverityOverrides = [\<lparr>srPattern = ''a+'', srSeverity = ''critical'', srIsRegex = True\<rparr>],
            IgnorePatterns = [], ServiceIgnores = [], Categories = []\<rparr>,
          severityPatterns = [\<lparr>csPattern = Some [Plus (Lit CHR ''a'')], csLiteral = [],
                               csSeverity = ''critical'', csIsRegex = True\<rparr>],
          ignorePatterns = []\<rparr>
   \<and> map csSeverity (severityPatterns
         \<lparr>config = \<lparr>Version = [],
            SeverityOverrides = [\<lparr>srPattern = ''a+'', srSeverity = ''critical'', srIsRegex = True\<rparr>],
            IgnorePatterns = [], ServiceIgnores = [], Categories = []\<rparr>,
          severityPatterns = [\<lparr>csPattern = Some [Plus (Lit CHR ''a'')], csLiteral = [],
                               csSeverity = ''critical'', csIsRegex = True\<rparr>],
          ignorePatterns = []\<rparr>) = [''critical'']
   \<and> isl (compileRules goRegexp
     \<lparr>Version = [],
      SeverityOverrides = [\<lparr>srPattern = ''+a'', srSeverity = ''info'', srIsRegex = True\<rparr>],
      IgnorePatterns = [], ServiceIgnores = [], Categories = []\<rparr>)"
proof -
  let ?cfg = "\<lparr>Version = [],
      SeverityOverrides = [\<lparr>srPattern = ''a+'', srSeverity = ''critical'', srIsRegex = True\<rparr>],
      IgnorePatterns = [], ServiceIgnores = [], Categories = []\<rparr>"
  let ?bad = "\<lparr>Version = [],
      SeverityOverrides = [\<lparr>srPattern = ''+a'', srSeverity = ''info'', srIsRegex = True\<rparr>],
      IgnorePatterns = [], ServiceIgnores = [], Categories = []\<rparr>"
  have c: "compileRules goRegexp ?cfg
   = Inr \<lparr>config = ?cfg,
          severityPatterns = [\<lparr>csPattern = Some [Plus (Lit CHR ''a'')], csLiteral = [],
                               csSeverity = ''critical'', csIsRegex = True\<rparr>],
          ignorePatterns = []\<rparr>"
    by (simp add: compileRules_def eval_regexp)
  have b: "isl (Compile goRegexp ''+a'')"
    by (simp add: eval_regexp)
  have "isl (compileRules goRegexp ?bad)"
    using rule_loading_errors[of goRegexp ?bad] b by simp
  moreover have "map csSeverity (severityPatterns
         \<lparr>config = ?cfg,
          severityPatterns = [\<lparr>csPattern = Some [Plus (Lit CHR ''a'')], csLiteral = [],
                               csSeverity = ''critical'', csIsRegex = True\<rparr>],
          ignorePatterns = []\<rparr>) = [''critical'']"
    using rule_loading_errors[of goRegexp ?cfg] c by simp
  ultimately show ?thesis using c by simp
qed

text \<open>
  Claim C10. The specification has a glob match the whole path with \<open>*\<close> for any run
  of characters and every other character literally. \<open>matchGlob\<close> escapes only the dot
  before it hands the pattern to the regexp library, so \<open>+\<close> keeps its regexp meaning:
  the pattern \<open>a+b\<close> matches \<open>aab\<close> and not \<open>a+b\<close>; and a pattern the library
  rejects is compared, in its rewritten form, with the path, so that a path ending in
  \<open>c++\<close> is not matched by itself.
\<close>

theorem matchGlob_metacharacters:
  "matchGlob goRegexp ''a+b'' ''aab'' \<and> \<not> globMatch ''a+b'' ''aab''
   \<and> \<not> matchGlob goRegexp ''a+b'' ''a+b'' \<and> globMatch ''a+b'' ''a+b''
   \<and> \<not> matchGlob goRegexp ''services.app.volumes./opt/c++'' ''services.app.volumes./opt/c++''
   \<and> globMatch ''services.app.volumes./opt/c++'' ''services.app.volumes./opt/c++''"
  by (simp add: eval_regexp)

section \<open>Claims about the Summary\<close>


lemma severityCount_append [simp]:
  "severityCount s (xs @ ys) = severityCount s xs + severityCount s ys"
  by (simp add: severityCount_def)

lemma severityCount_Nil [simp]: "severityCount s [] = 0"
  by (simp add: severityCount_def)













lemma entityCount_all:
  "(\<And>c. c \<in> set cs \<Longrightarrow> isEntityChange c \<and> Scope c = s \<and> Kind c = k) \<Longrightarrow>
   entityCount s k cs = length cs"
  by (simp add: entityCount_def)






























section \<open>Glob patterns without regexp metacharacters\<close>

lemma ReplaceAll_concat:
  "ReplaceAll s old new = concat (map (\<lambda>c. if c = old then new else [c]) s)"
  by (induction s) auto

lemma ReplaceAll_append [simp]:
  "ReplaceAll (xs @ ys) old new = ReplaceAll xs old new @ ReplaceAll ys old new"
  by (induction xs) auto

lemma globPattern_concat:
  "globPattern p = ''^'' @ concat (map globChar p) @ ''$''"
proof -
  have "ReplaceAll (ReplaceAll p CHR ''.'' [CHR 0x5C, CHR ''.'']) CHR ''*'' ''.*''
      = concat (map globChar p)"
    by (induction p) (auto simp: globChar_def)
  then show ?thesis by (simp add: globPattern_def)
qed

lemma parse_globChar:
  assumes "plainChar c \<or> c = CHR ''.'' \<or> c = CHR ''*''"
  shows "\<exists>rep'. parseItems (globChar c @ rest) (acc, rep, False)
           = parseItems rest (globItem c # acc, rep', False)"
proof -
  consider "c = CHR ''.''" | "c = CHR ''*''" | "plainChar c" "c \<noteq> CHR ''.''" "c \<noteq> CHR ''*''"
    using assms by blast
  then show ?thesis
  proof cases
    case 1
    then show ?thesis
      by (intro exI[of _ 0])
         (simp add: globChar_def globItem_def parseStep_def isAlnum_def isDigit_def)
  next
    case 2
    then show ?thesis
      by (intro exI[of _ 1]) (simp add: globChar_def globItem_def parseStep_def repeatItem_def)
  next
    case 3
    then show ?thesis
      by (intro exI[of _ 0]) (auto simp: globChar_def globItem_def parseStep_def plainChar_def)
  qed
qed

lemma parse_globChars:
  "list_all (\<lambda>c. plainChar c \<or> c = CHR ''.'' \<or> c = CHR ''*'') p \<Longrightarrow>
   \<exists>rep'. parseItems (concat (map globChar p) @ rest) (acc, rep, False)
           = parseItems rest (rev (map globItem p) @ acc, rep', False)"
proof (induction p arbitrary: acc rep)
  case Nil
  then show ?case by auto
next
  case (Cons c p)
  then have c: "plainChar c \<or> c = CHR ''.'' \<or> c = CHR ''*''"
    and p: "list_all (\<lambda>c. plainChar c \<or> c = CHR ''.'' \<or> c = CHR ''*'') p" by simp_all
  obtain r1 where 1: "parseItems (globChar c @ (concat (map globChar p) @ rest)) (acc, rep, False)
           = parseItems (concat (map globChar p) @ rest) (globItem c # acc, r1, False)"
    using parse_globChar[OF c] by blast
  obtain r2 where 2: "parseItems (concat (map globChar p) @ rest) (globItem c # acc, r1, False)
           = parseItems rest (rev (map globItem p) @ globItem c # acc, r2, False)"
    using Cons.IH[OF p] by blast
  show ?case using 1 2 by auto
qed

lemma Compile_globPattern:
  assumes "list_all (\<lambda>c. plainChar c \<or> c = CHR ''.'' \<or> c = CHR ''*'') p"
  shows "Compile goRegexp (globPattern p) = Inr (Begin # map globItem p @ [End])"
proof -
  obtain r where "parseItems (concat (map globChar p) @ ''$'') ([Begin], 0, False)
           = parseItems ''$'' (rev (map globItem p) @ [Begin], r, False)"
    using parse_globChars[OF assms] by blast
  then show ?thesis
    by (simp add: goRegexp_def globPattern_concat parseStep_def rev_map)
qed

lemma matchHere_Star_Cons:
  "matchHere (Star a # items) (c # cs) b
     = (matchHere items (c # cs) b \<or> (atomMatches a c \<and> matchHere (Star a # items) cs False))"
  by simp

lemma matchHere_Star_Nil: "matchHere (Star a # items) [] b = matchHere items [] b"
  by simp

lemma matchHere_One_Cons:
  "matchHere (One a # items) (c # cs) b = (atomMatches a c \<and> matchHere items cs False)"
  by simp

lemma matchHere_One_Nil: "matchHere (One a # items) [] b = False"
  by simp

lemma matchHere_End: "matchHere [End] s b = (s = [])"
  by simp

lemma matchHere_glob:
  "CHR 0x0A \<notin> set s \<Longrightarrow> matchHere (map globItem p @ [End]) s b = globMatch p s"
proof (induction p s arbitrary: b rule: globMatch.induct)
  case (1 s)
  show ?case by (simp only: list.map append_Nil matchHere_End globMatch.simps)
next
  case (2 p ps)
  show ?case
  proof (cases "p = CHR ''*''")
    case True
    have gi: "map globItem (p # ps) @ [End] = Star AnyNotNL # (map globItem ps @ [End])"
      using True by (simp add: globItem_def)
    show ?thesis
      unfolding gi matchHere_Star_Nil using 2 True by simp
  next
    case False
    have gi: "map globItem (p # ps) @ [End] = One (Lit p) # (map globItem ps @ [End])"
      using False by (simp add: globItem_def)
    show ?thesis
      unfolding gi matchHere_One_Nil using False by simp
  qed
next
  case (3 p ps c cs)
  from 3(4) have nl: "c \<noteq> CHR 0x0A" "CHR 0x0A \<notin> set cs" by auto
  show ?case
  proof (cases "p = CHR ''*''")
    case True
    have gi: "map globItem (p # ps) @ [End] = Star AnyNotNL # (map globItem ps @ [End])"
      using True by (simp add: globItem_def)
    have a: "matchHere (map globItem ps @ [End]) (c # cs) b = globMatch ps (c # cs)"
      using 3(1)[OF True 3(4)] .
    have b: "matchHere (Star AnyNotNL # (map globItem ps @ [End])) cs False = globMatch (p # ps) cs"
      using 3(2)[OF True nl(2), of False] unfolding gi .
    have am: "atomMatches AnyNotNL c" using nl by (simp add: atomMatches_def)
    show ?thesis
      unfolding gi matchHere_Star_Cons a b using am True by simp
  next
    case False
    have gi: "map globItem (p # ps) @ [End] = One (Lit p) # (map globItem ps @ [End])"
      using False by (simp add: globItem_def)
    have a: "matchHere (map globItem ps @ [End]) cs False = globMatch ps cs"
      using 3(3)[OF False nl(2)] .
    show ?thesis
      unfolding gi matchHere_One_Cons a using False by (auto simp: atomMatches_def)
  qed
qed

lemma searchFrom_Begin: "searchFrom (Begin # items) s False = False"
  by (induction s) auto

text \<open>
  Where the pattern has no character with a meaning in a regular expression but the dot
  and the star, and the path has no newline, \<open>matchGlob\<close> on the regexp model is the
  glob matching of the specification.
\<close>

lemma matchGlob_plain:
  assumes "list_all (\<lambda>c. plainChar c \<or> c = CHR ''.'' \<or> c = CHR ''*'') p"
    and "CHR 0x0A \<notin> set s"
  shows "matchGlob goRegexp p s = globMatch p s"
proof -
  have "searchFrom (Begin # map globItem p @ [End]) s True
      = matchHere (map globItem p @ [End]) s True"
    by (cases s) (simp_all add: searchFrom_Begin)
  then show ?thesis
    using Compile_globPattern[OF assms(1)] matchHere_glob[OF assms(2)]
    by (simp add: matchGlob_def) (simp add: goRegexp_def)
qed

section \<open>Claims about port bindings\<close>


lemma lastWithKey_Nil [simp]: "lastWithKey [] k = None"
  by (simp add: lastWithKey_def)





















end
